theory Spec2Isabelle
  imports Main
begin

section \<open>Python values used by the script\<close>

text \<open>
  The script \<^verbatim>\<open>rpm/vendor-theia-ide-deps.py\<close> is modelled function by function.
  A Python \<^verbatim>\<open>str\<close> is a \<^typ>\<open>string\<close>; a value that may be \<^verbatim>\<open>None\<close> is an
  \<^typ>\<open>'a option\<close>. Python tests such values for truthiness: \<^verbatim>\<open>None\<close> and the
  empty string are false, every other string is true. What the script prints is left
  out: writing to the console is taken to succeed and has no bearing on the values
  returned. The one exception is \<^verbatim>\<open>get_copr_release_number\<close>, where a \<^verbatim>\<open>print\<close>
  that fails inside the \<^verbatim>\<open>try\<close> changes the number returned; there each
  \<^verbatim>\<open>print\<close> is a step that can raise.
\<close>

fun truthy :: "string option \<Rightarrow> bool" where
  "truthy None = False"
| "truthy (Some s) = (s \<noteq> [])"

text \<open>\<^verbatim>\<open>a or b\<close>: the first operand when it is truthy, the second otherwise.\<close>

definition py_or :: "string option \<Rightarrow> string option \<Rightarrow> string option" where
  "py_or a b = (if truthy a then a else b)"

text \<open>\<^verbatim>\<open>sys.exit(n)\<close> raises \<^verbatim>\<open>SystemExit\<close>, which ends the run with status \<open>n\<close>.\<close>

datatype exit = SystemExit nat

section \<open>The driver's command line\<close>

text \<open>The namespace that \<^verbatim>\<open>parser.parse_args()\<close> returns in \<^verbatim>\<open>main\<close>.\<close>

record args =
  arg_version :: "string option"
  arg_version_opt :: "string option"
  arg_output :: "string option"
  arg_github_latest :: bool
  arg_skip_main_source :: bool
  arg_skip_plugins :: bool
  arg_skip_deps :: bool
  arg_only_main_source :: bool
  arg_only_plugins :: bool
  arg_only_deps :: bool
  arg_copr :: bool
  arg_no_update_spec :: bool

subsection \<open>Version resolution\<close>

text \<open>
  What the tag request of \<^verbatim>\<open>get_latest_github_version\<close> gives: an exception (network
  failure, a body that is not a JSON list of objects), or the list of tags, each with its
  optional \<^verbatim>\<open>name\<close>.
\<close>

datatype tags_response = TagsError | Tags "string option list"

text \<open>\<^verbatim>\<open>tag.lstrip('v')\<close> removes every leading \<^verbatim>\<open>v\<close>.\<close>

definition lstrip_v :: "string \<Rightarrow> string" where
  "lstrip_v s = dropWhile (\<lambda>c. c = CHR ''v'') s"

fun get_latest_github_version :: "tags_response \<Rightarrow> string option" where
  "get_latest_github_version TagsError = None"
| "get_latest_github_version (Tags []) = None"
| "get_latest_github_version (Tags (t # ts)) =
     (let tag = (case t of None \<Rightarrow> [] | Some n \<Rightarrow> n)
      in if tag \<noteq> [] then Some (lstrip_v tag) else None)"

text \<open>
  What reading the local \<^verbatim>\<open>package.json\<close> gives in \<^verbatim>\<open>get_version_from_local\<close>: the
  file is missing, reading or parsing it raises, or it parses and has an optional
  \<^verbatim>\<open>version\<close> entry.
\<close>

datatype package_json = PkgMissing | PkgUnreadable | PkgParsed "string option"

fun get_version_from_local :: "package_json \<Rightarrow> string option" where
  "get_version_from_local PkgMissing = None"
| "get_version_from_local PkgUnreadable = None"
| "get_version_from_local (PkgParsed v) = v"

text \<open>
  Lines 556 to 578 of \<^verbatim>\<open>main\<close>: the explicit version, else the selected source; a
  source that yields nothing ends the run with \<^verbatim>\<open>sys.exit(1)\<close>.
\<close>

definition main_version :: "args \<Rightarrow> tags_response \<Rightarrow> package_json \<Rightarrow> exit + string" where
  "main_version a github pkg =
     (let version = py_or (arg_version_opt a) (arg_version a) in
      if \<not> truthy version then
        (if arg_github_latest a then
           (let version = get_latest_github_version github in
            if \<not> truthy version then Inl (SystemExit 1) else Inr (the version))
         else
           (let version = get_version_from_local pkg in
            if \<not> truthy version then Inl (SystemExit 1) else Inr (the version)))
      else Inr (the version))"

subsection \<open>What to generate\<close>

record gen_flags =
  gen_main :: bool
  gen_plugins :: bool
  gen_deps :: bool

text \<open>Lines 580 to 597 of \<^verbatim>\<open>main\<close>.\<close>

definition main_gen_flags :: "args \<Rightarrow> gen_flags" where
  "main_gen_flags a =
     (if arg_only_main_source a then
        \<lparr>gen_main = True, gen_plugins = False, gen_deps = False\<rparr>
      else if arg_only_plugins a then
        \<lparr>gen_main = False, gen_plugins = True, gen_deps = False\<rparr>
      else if arg_only_deps a then
        \<lparr>gen_main = False, gen_plugins = False, gen_deps = True\<rparr>
      else
        \<lparr>gen_main = \<not> arg_skip_main_source a,
         gen_plugins = \<not> arg_skip_plugins a,
         gen_deps = \<not> arg_skip_deps a\<rparr>)"

subsection \<open>Output directory\<close>

text \<open>
  \<^verbatim>\<open>os.environ\<close> is a map from names to values; \<^verbatim>\<open>os.environ.get(k, d)\<close> is the value
  of \<open>k\<close> when \<open>k\<close> is set (also to the empty string) and \<open>d\<close> otherwise.
\<close>

definition environ_get :: "(string \<rightharpoonup> string) \<Rightarrow> string \<Rightarrow> string \<Rightarrow> string" where
  "environ_get environ k d = (case environ k of None \<Rightarrow> d | Some v \<Rightarrow> v)"

datatype path = Path string

text \<open>
  Lines 601 to 608 of \<^verbatim>\<open>main\<close>: the path handed to \<^verbatim>\<open>Path(...)\<close>, before
  \<^verbatim>\<open>resolve()\<close> makes it absolute.
\<close>

definition main_output_dir :: "args \<Rightarrow> (string \<rightharpoonup> string) \<Rightarrow> path" where
  "main_output_dir a environ =
     (if truthy (arg_output a) then Path (the (arg_output a))
      else if arg_copr a then
        Path (environ_get environ ''COPR_RESULTDIR''
               (environ_get environ ''resultdir'' ''/workdir/rpm''))
      else Path ''.'')"


section \<open>Text and regular expressions\<close>

text \<open>
  A \<^typ>\<open>char\<close> stands for a code point below 256. Among these, Python's \<^verbatim>\<open>str.isspace\<close>
  and the class \<^verbatim>\<open>\s\<close> of \<^verbatim>\<open>re\<close> hold of the characters below, and \<^verbatim>\<open>\d\<close> holds of
  the ten ASCII digits.
\<close>

definition py_isspace :: "char \<Rightarrow> bool" where
  "py_isspace c \<longleftrightarrow>
     c \<in> set [CHR 0x09, CHR 0x0A, CHR 0x0B, CHR 0x0C, CHR 0x0D, CHR 0x1C, CHR 0x1D,
              CHR 0x1E, CHR 0x1F, CHR 0x20, CHR 0x85, CHR 0xA0]"

definition py_isdigit :: "char \<Rightarrow> bool" where
  "py_isdigit c \<longleftrightarrow> c \<in> set ''0123456789''"

text \<open>\<^verbatim>\<open>s.strip()\<close> and \<^verbatim>\<open>s.startswith(p)\<close>.\<close>

definition py_strip :: "string \<Rightarrow> string" where
  "py_strip s = rev (dropWhile py_isspace (rev (dropWhile py_isspace s)))"

fun strip_prefix :: "string \<Rightarrow> string \<Rightarrow> string option" where
  "strip_prefix [] s = Some s"
| "strip_prefix (k # ks) [] = None"
| "strip_prefix (k # ks) (c # cs) = (if k = c then strip_prefix ks cs else None)"

definition startswith :: "string \<Rightarrow> string \<Rightarrow> bool" where
  "startswith s p = (strip_prefix p s \<noteq> None)"

text \<open>
  \<^verbatim>\<open>re.search\<close> with \<^verbatim>\<open>re.MULTILINE\<close> for a pattern that begins with \<^verbatim>\<open>^\<close>: the
  positions are tried from left to right, and the pattern can only match at the start
  of the text or right after a newline. \<open>m\<close> is the match of the rest of the pattern at
  one position; \<open>bol\<close> says whether the position is at the beginning of a line.
\<close>

fun search_from :: "(string \<Rightarrow> 'a option) \<Rightarrow> bool \<Rightarrow> string \<Rightarrow> 'a option" where
  "search_from m bol [] = (if bol then m [] else None)"
| "search_from m bol (c # cs) =
     (case (if bol then m (c # cs) else None) of
        Some g \<Rightarrow> Some g
      | None \<Rightarrow> search_from m (c = CHR 0x0A) cs)"

definition re_search_multiline :: "(string \<Rightarrow> 'a option) \<Rightarrow> string \<Rightarrow> 'a option" where
  "re_search_multiline m content = search_from m True content"

text \<open>
  \<^verbatim>\<open>key\s+(C+)\<close> at one position, for a class \<open>C\<close> disjoint from \<^verbatim>\<open>\s\<close>: the literal
  \<open>key\<close>, the longest run of whitespace (at least one character; it may hold newlines)
  and the longest run of \<open>C\<close> (at least one character), which is the group. Giving back
  whitespace cannot help the match, since the group cannot start with whitespace.
\<close>

definition match_key_group :: "string \<Rightarrow> (char \<Rightarrow> bool) \<Rightarrow> string \<Rightarrow> string option" where
  "match_key_group key C s =
     (case strip_prefix key s of
        None \<Rightarrow> None
      | Some r \<Rightarrow>
          (let g = takeWhile C (dropWhile py_isspace r)
           in if takeWhile py_isspace r = [] \<or> g = [] then None else Some g))"

text \<open>\<^verbatim>\<open>re.search(r'^Version:\s+(\S+)', content, re.MULTILINE)\<close>, group 1.\<close>

definition version_match :: "string \<Rightarrow> string option" where
  "version_match content =
     re_search_multiline (match_key_group ''Version:'' (\<lambda>c. \<not> py_isspace c)) content"

text \<open>\<^verbatim>\<open>re.search(r'^Release:\s+(\d+)', content, re.MULTILINE)\<close>, group 1.\<close>

definition release_match :: "string \<Rightarrow> string option" where
  "release_match content =
     re_search_multiline (match_key_group ''Release:'' py_isdigit) content"

section \<open>Release number from COPR dist-git\<close>

datatype exn =
  Exception string | CalledProcessError | TimeoutExpired | OSError | URLError
  | UnicodeDecodeError | ValueError

text \<open>
  A function that may raise has a value in \<open>exn + 'a\<close>, with \<open>Inl\<close> for the exception;
  \<open>seq\<close> runs one such step after another and stops at the first exception.
\<close>

definition seq :: "exn + 'a \<Rightarrow> ('a \<Rightarrow> exn + 'b) \<Rightarrow> exn + 'b" where
  "seq r f = (case r of Inl e \<Rightarrow> Inl e | Inr x \<Rightarrow> f x)"

text \<open>\<^verbatim>\<open>str(n)\<close> for an integer: its decimal digits, after a minus sign if negative.\<close>

function str_nat :: "nat \<Rightarrow> string" where
  "str_nat n =
     (if n < 10 then [''0123456789'' ! n]
      else str_nat (n div 10) @ [''0123456789'' ! (n mod 10)])"
  by pat_completeness auto
termination
  by (relation "measure id") auto

definition str_int :: "int \<Rightarrow> string" where
  "str_int i = (if i < 0 then CHR ''-'' # str_nat (nat (- i)) else str_nat (nat i))"

text \<open>
  CPython limits the conversions between \<^verbatim>\<open>int\<close> and \<^verbatim>\<open>str\<close>: with the limit
  \<^verbatim>\<open>sys.get_int_max_str_digits()\<close> not zero (it is then at least 640), \<^verbatim>\<open>int(s)\<close>
  raises \<^verbatim>\<open>ValueError\<close> for a string of more digits than the limit, leading zeros
  counted, and \<^verbatim>\<open>str(n)\<close>, also inside an f-string, raises it for a number of more
  digits than the limit. Neither check applies up to 640 digits.
\<close>

definition over_limit :: "nat \<Rightarrow> nat \<Rightarrow> bool" where
  "over_limit max_str_digits digits \<longleftrightarrow>
     0 < max_str_digits \<and> max max_str_digits 640 < digits"

definition digit_value :: "char \<Rightarrow> int" where
  "digit_value c = int (of_char c) - 48"

definition py_int :: "nat \<Rightarrow> string \<Rightarrow> exn + int" where
  "py_int max_str_digits ds =
     (if over_limit max_str_digits (length ds) then Inl ValueError
      else Inr (foldl (\<lambda>a c. 10 * a + digit_value c) 0 ds))"

definition py_str :: "nat \<Rightarrow> int \<Rightarrow> exn + string" where
  "py_str max_str_digits n =
     (if over_limit max_str_digits (length (str_nat (nat \<bar>n\<bar>))) then Inl ValueError
      else Inr (str_int n))"

text \<open>
  What the two ways of fetching the spec file can give. \<^verbatim>\<open>subprocess.run\<close> with
  \<^verbatim>\<open>check=True\<close> and a timeout raises \<^verbatim>\<open>CalledProcessError\<close>, \<^verbatim>\<open>TimeoutExpired\<close> or
  an \<^verbatim>\<open>OSError\<close>, or completes with an output whose UTF-8 decoding is a string or
  fails. \<^verbatim>\<open>urlopen\<close> raises, or gives a body whose decoding is a string or fails.
  A \<^verbatim>\<open>print\<close> can raise as well (a closed stream, a character that the stream's
  encoding does not have): \<open>print_ok n\<close> says whether the \<^verbatim>\<open>print\<close> of source line
  \<open>n\<close> succeeds.
\<close>

datatype curl_result =
  CurlCalledProcessError | CurlTimeoutExpired | CurlOSError | CurlCompleted "string option"

datatype urlopen_result = UrlopenError | UrlopenBody "string option"

record copr_env =
  which_curl :: bool
  run_curl :: "string list \<Rightarrow> nat \<Rightarrow> curl_result"
  urlopen_timeout :: "string \<Rightarrow> (string \<times> string) list \<Rightarrow> nat \<Rightarrow> urlopen_result"
  int_max_str_digits :: nat
  print_ok :: "nat \<Rightarrow> bool"

definition distgit_url :: "string \<Rightarrow> string \<Rightarrow> string \<Rightarrow> string" where
  "distgit_url copr_owner copr_project package_name =
     ''https://copr-dist-git.fedorainfracloud.org/packages/'' @ copr_owner @ ''/'' @
     copr_project @ ''/'' @ package_name @ ''.git/plain/'' @ package_name @
     ''.spec?h=master''"

text \<open>Lines 403 to 424: the fetch, inside the outer \<^verbatim>\<open>try\<close>.\<close>

definition fetch_spec :: "copr_env \<Rightarrow> string \<Rightarrow> exn + string" where
  "fetch_spec env url =
     (if which_curl env then
        (case run_curl env [''curl'', ''-s'', ''-f'', ''-L'', url] 10 of
           CurlCalledProcessError \<Rightarrow> Inl (Exception ''curl failed'')
         | CurlTimeoutExpired \<Rightarrow> Inl (Exception ''curl failed'')
         | CurlOSError \<Rightarrow> Inl OSError
         | CurlCompleted None \<Rightarrow> Inl UnicodeDecodeError
         | CurlCompleted (Some content) \<Rightarrow> Inr content)
      else
        (case urlopen_timeout env url
                [(''User-Agent'', ''Mozilla/5.0 (compatible; theia-ide-vendor/1.0)'')] 10 of
           UrlopenError \<Rightarrow> Inl URLError
         | UrlopenBody None \<Rightarrow> Inl UnicodeDecodeError
         | UrlopenBody (Some content) \<Rightarrow>
             if startswith content ''<!doctype html>'' \<or> startswith content ''<html''
             then Inl (Exception ''Received HTML (bot protection)'')
             else Inr content))"

definition py_print :: "copr_env \<Rightarrow> nat \<Rightarrow> exn + unit" where
  "py_print env line = (if print_ok env line then Inr () else Inl OSError)"

text \<open>
  Lines 426 to 448, inside the outer \<^verbatim>\<open>try\<close>: the two searches, the conversion of
  the release, the comparison, and the progress line, whose f-string converts both
  release numbers to text before it is printed.
\<close>

definition copr_release_parse :: "copr_env \<Rightarrow> string \<Rightarrow> string \<Rightarrow> exn + int" where
  "copr_release_parse env version content =
     (case (version_match content, release_match content) of
        (Some vg, Some rg) \<Rightarrow>
          (let prev_version = py_strip vg in
           seq (py_int (int_max_str_digits env) rg) (\<lambda>prev_release.
             if prev_version = version then
               (let next_release = prev_release + 1 in
                seq (py_str (int_max_str_digits env) prev_release) (\<lambda>_.
                seq (py_str (int_max_str_digits env) next_release) (\<lambda>_.
                seq (py_print env 442) (\<lambda>_. Inr next_release))))
             else
               (let next_release = 1 in
                seq (py_str (int_max_str_digits env) prev_release) (\<lambda>_.
                seq (py_str (int_max_str_digits env) next_release) (\<lambda>_.
                seq (py_print env 446) (\<lambda>_. Inr next_release))))))
      | _ \<Rightarrow> seq (py_print env 432) (\<lambda>_. seq (py_print env 433) (\<lambda>_. Inr 1)))"

text \<open>Lines 401 to 448: the body of the outer \<^verbatim>\<open>try\<close>.\<close>

definition copr_release_try :: "copr_env \<Rightarrow> string \<Rightarrow> string \<Rightarrow> exn + int" where
  "copr_release_try env version url =
     seq (fetch_spec env url) (copr_release_parse env version)"

text \<open>
  \<^verbatim>\<open>get_copr_release_number\<close>: the progress line of line 398, which stands before the
  \<^verbatim>\<open>try\<close>, then the \<^verbatim>\<open>try\<close> with its handler \<^verbatim>\<open>except Exception\<close>, which prints
  three lines and returns 1. \<open>Inl\<close> is an exception that reaches the caller.
\<close>

definition get_copr_release_number ::
    "copr_env \<Rightarrow> string \<Rightarrow> string \<Rightarrow> string \<Rightarrow> string \<Rightarrow> exn + int" where
  "get_copr_release_number env version copr_owner copr_project package_name =
     seq (py_print env 398) (\<lambda>_.
       case copr_release_try env version (distgit_url copr_owner copr_project package_name) of
         Inl e \<Rightarrow>
           seq (py_print env 451) (\<lambda>_.
           seq (py_print env 452) (\<lambda>_.
           seq (py_print env 453) (\<lambda>_. Inr 1)))
       | Inr next_release \<Rightarrow> Inr next_release)"

section \<open>Downloads and clones\<close>

text \<open>
  The part of the machine that the download functions read and change: the regular
  files by path, the directories by path (with \<open>True\<close> when the directory holds a
  \<^verbatim>\<open>.git\<close> entry), and, as a record of what was done, the URLs opened and the git
  command lines run, each in order. The model keeps files and directories apart and lets
  the creation of parent directories always succeed.
\<close>

record world =
  files :: "string \<rightharpoonup> string"
  dirs :: "string \<rightharpoonup> bool"
  requests :: "string list"
  git_calls :: "string list list"

text \<open>
  What lies outside the script: the answer to opening a URL (a body, or \<open>None\<close> for any
  exception on the way), the outcome of a git command run with \<^verbatim>\<open>check=True\<close>, the
  SHA-256 digest of a content in hexadecimal, and the joining of two path components
  (\<^verbatim>\<open>/\<close> of \<^verbatim>\<open>pathlib\<close>). An answer may depend on how many requests or commands
  came before it.
\<close>

datatype git_result = GitOk | GitCalledProcessError | GitOtherError

record env =
  net_urlopen :: "string \<Rightarrow> nat \<Rightarrow> string option"
  net_git :: "string list \<Rightarrow> nat \<Rightarrow> git_result"
  sha256_hexdigest :: "string \<Rightarrow> string"
  joinpath :: "string \<Rightarrow> string \<Rightarrow> string"

text \<open>\<^verbatim>\<open>verify_sha256\<close> on a file with the given content.\<close>

definition verify_sha256 :: "env \<Rightarrow> string \<Rightarrow> string \<Rightarrow> bool" where
  "verify_sha256 e content expected_sha256 \<longleftrightarrow> sha256_hexdigest e content = expected_sha256"

definition unlink :: "string \<Rightarrow> world \<Rightarrow> world" where
  "unlink dest_path w = w\<lparr>files := (files w)(dest_path := None)\<rparr>"

text \<open>
  Lines 110 to 132 of \<^verbatim>\<open>download_file\<close>: the \<^verbatim>\<open>try\<close> block with its handler. One
  request is made; a failed request leaves no file; a body that fails the check is
  removed again.
\<close>

definition download_try ::
    "env \<Rightarrow> world \<Rightarrow> string \<Rightarrow> string \<Rightarrow> string option \<Rightarrow> bool \<times> world" where
  "download_try e w url dest_path expected_sha256 =
     (let w1 = w\<lparr>requests := requests w @ [url]\<rparr> in
      case net_urlopen e url (length (requests w)) of
        None \<Rightarrow> (False, unlink dest_path w1)
      | Some body \<Rightarrow>
          (let w2 = w1\<lparr>files := (files w1)(dest_path \<mapsto> body)\<rparr> in
           if truthy expected_sha256 then
             (if verify_sha256 e body (the expected_sha256) then (True, w2)
              else (False, unlink dest_path w2))
           else (True, w2)))"

text \<open>\<^verbatim>\<open>download_file\<close>: the result and the machine afterwards.\<close>

definition download_file ::
    "env \<Rightarrow> world \<Rightarrow> string \<Rightarrow> string \<Rightarrow> string option \<Rightarrow> bool \<times> world" where
  "download_file e w url dest_path expected_sha256 =
     (case files w dest_path of
        Some content \<Rightarrow>
          if truthy expected_sha256 \<and> verify_sha256 e content (the expected_sha256)
          then (True, w)
          else if \<not> truthy expected_sha256 then (True, w)
          else download_try e (unlink dest_path w) url dest_path expected_sha256
      | None \<Rightarrow> download_try e w url dest_path expected_sha256)"

text \<open>One \<^verbatim>\<open>subprocess.run\<close> of git: its outcome, and the command recorded.\<close>

definition run_git :: "env \<Rightarrow> world \<Rightarrow> string list \<Rightarrow> git_result \<times> world" where
  "run_git e w cmd =
     (net_git e cmd (length (git_calls w)), w\<lparr>git_calls := git_calls w @ [cmd]\<rparr>)"

definition rmtree :: "string \<Rightarrow> world \<Rightarrow> world" where
  "rmtree dest_path w = w\<lparr>dirs := (dirs w)(dest_path := None)\<rparr>"

text \<open>
  The handlers of \<^verbatim>\<open>clone_git_repo\<close>: after \<^verbatim>\<open>CalledProcessError\<close> the destination is
  removed, after any other exception it is left as it is.
\<close>

fun git_failed :: "git_result \<Rightarrow> string \<Rightarrow> world \<Rightarrow> bool \<times> world" where
  "git_failed GitCalledProcessError dest_path w = (False, rmtree dest_path w)"
| "git_failed r dest_path w = (False, w)"

text \<open>
  \<^verbatim>\<open>clone_git_repo\<close>: a destination with a \<^verbatim>\<open>.git\<close> entry is a finished clone;
  any other existing destination is removed first; then clone, fetch and checkout run
  in turn, the first failure ending the function. A successful clone creates the
  destination with its \<^verbatim>\<open>.git\<close> entry.
\<close>

definition clone_git_repo ::
    "env \<Rightarrow> world \<Rightarrow> string \<Rightarrow> string \<Rightarrow> string \<Rightarrow> bool \<times> world" where
  "clone_git_repo e w url commit dest_path =
     (if dirs w dest_path = Some True then (True, w)
      else
        (let w0 = (if dirs w dest_path \<noteq> None then rmtree dest_path w else w);
             (r1, w1) = run_git e w0 [''git'', ''clone'', ''--depth'', ''1'', url, dest_path]
         in if r1 \<noteq> GitOk then git_failed r1 dest_path w1
            else
              (let w1' = w1\<lparr>dirs := (dirs w1)(dest_path \<mapsto> True)\<rparr>;
                   (r2, w2) = run_git e w1'
                     [''git'', ''-C'', dest_path, ''fetch'', ''--depth'', ''1'', ''origin'', commit]
               in if r2 \<noteq> GitOk then git_failed r2 dest_path w2
                  else
                    (let (r3, w3) = run_git e w2 [''git'', ''-C'', dest_path, ''checkout'', commit]
                     in if r3 \<noteq> GitOk then git_failed r3 dest_path w3
                        else (True, w3)))))"

section \<open>The dependency pass\<close>

text \<open>
  One entry of the sources JSON, with the keys the pass reads; \<open>None\<close> is an absent key.
\<close>

record source =
  src_type :: "string option"
  src_url :: "string option"
  src_commit :: "string option"
  src_dest :: "string option"
  src_dest_filename :: "string option"
  src_sha256 :: "string option"
  src_only_arches :: "string list option"

record counters =
  success_count :: nat
  skip_count :: nat
  fail_count :: nat
  git_count :: nat

definition arches :: "string list" where
  "arches = [''x86_64'', ''aarch64'']"

text \<open>\<^verbatim>\<open>source.get('only-arches', [])\<close> and \<^verbatim>\<open>source.get('dest', '')\<close>.\<close>

definition get_only_arches :: "source \<Rightarrow> string list" where
  "get_only_arches source = (case src_only_arches source of None \<Rightarrow> [] | Some l \<Rightarrow> l)"

definition get_dest_subdir :: "source \<Rightarrow> string" where
  "get_dest_subdir source = (case src_dest source of None \<Rightarrow> [] | Some d \<Rightarrow> d)"

definition file_dest_path :: "env \<Rightarrow> string \<Rightarrow> source \<Rightarrow> string" where
  "file_dest_path e output_dir source =
     joinpath e (joinpath e output_dir (get_dest_subdir source)) (the (src_dest_filename source))"

text \<open>
  The body of the loop of \<^verbatim>\<open>download_dependencies\<close> (lines 213 to 262) for one
  source, on the machine and the four counters.
\<close>

definition download_step ::
    "env \<Rightarrow> string \<Rightarrow> world \<times> counters \<Rightarrow> source \<Rightarrow> world \<times> counters" where
  "download_step e output_dir st source =
     (let w = fst st; c = snd st in
      if src_type source = Some ''git'' then
        (if \<not> truthy (src_url source) \<or> \<not> truthy (src_commit source)
            \<or> \<not> truthy (src_dest source)
         then (w, c)
         else
           (let dest_path = joinpath e output_dir (the (src_dest source));
                (ok, w') = clone_git_repo e w (the (src_url source))
                             (the (src_commit source)) dest_path
            in if ok then (w', c\<lparr>git_count := git_count c + 1,
                                  success_count := success_count c + 1\<rparr>)
               else (w', c\<lparr>fail_count := fail_count c + 1\<rparr>)))
      else if src_type source = Some ''file'' then
        (let only_arches = get_only_arches source in
         if only_arches \<noteq> [] \<and> [arch \<leftarrow> arches. arch \<in> set only_arches] = []
         then (w, c\<lparr>skip_count := skip_count c + 1\<rparr>)
         else if \<not> truthy (src_url source) \<or> \<not> truthy (src_dest_filename source)
         then (w, c)
         else
           (let (ok, w') = download_file e w (the (src_url source))
                             (file_dest_path e output_dir source) (src_sha256 source)
            in if ok then (w', c\<lparr>success_count := success_count c + 1\<rparr>)
               else (w', c\<lparr>fail_count := fail_count c + 1\<rparr>)))
      else (w, c))"

fun download_loop ::
    "env \<Rightarrow> string \<Rightarrow> world \<times> counters \<Rightarrow> source list \<Rightarrow> world \<times> counters" where
  "download_loop e output_dir st [] = st"
| "download_loop e output_dir st (source # sources) =
     download_loop e output_dir (download_step e output_dir st source) sources"

text \<open>
  \<^verbatim>\<open>download_dependencies\<close> on the parsed list of sources: the value returned, with
  the machine and the counters at the end of the loop.
\<close>

definition download_dependencies ::
    "env \<Rightarrow> world \<Rightarrow> source list \<Rightarrow> string \<Rightarrow> bool \<times> world \<times> counters" where
  "download_dependencies e w sources output_dir =
     (let (w', c) = download_loop e output_dir
            (w, \<lparr>success_count = 0, skip_count = 0, fail_count = 0, git_count = 0\<rparr>) sources
      in (if fail_count c > 0 then False else True, w', c))"


subsection \<open>Kinds of sources\<close>

text \<open>
  How the loop body treats a source, read off its branches: a \<^verbatim>\<open>file\<close> source is
  skipped for its architectures when \<^verbatim>\<open>only-arches\<close> is not empty and names neither
  target architecture; a \<^verbatim>\<open>file\<close> source reaches \<^verbatim>\<open>download_file\<close> when it is not
  skipped and has a URL and a file name; a \<^verbatim>\<open>git\<close> source reaches
  \<^verbatim>\<open>clone_git_repo\<close> when it has a URL, a commit and a destination.
\<close>

definition arch_skipped :: "source \<Rightarrow> bool" where
  "arch_skipped source \<longleftrightarrow>
     src_type source = Some ''file'' \<and> get_only_arches source \<noteq> [] \<and>
     set (get_only_arches source) \<inter> {''x86_64'', ''aarch64''} = {}"

definition file_attempted :: "source \<Rightarrow> bool" where
  "file_attempted source \<longleftrightarrow>
     src_type source = Some ''file'' \<and> \<not> arch_skipped source \<and>
     truthy (src_url source) \<and> truthy (src_dest_filename source)"

definition git_attempted :: "source \<Rightarrow> bool" where
  "git_attempted source \<longleftrightarrow>
     src_type source = Some ''git'' \<and> truthy (src_url source) \<and>
     truthy (src_commit source) \<and> truthy (src_dest source)"

definition attempted :: "source \<Rightarrow> bool" where
  "attempted source \<longleftrightarrow> git_attempted source \<or> file_attempted source"

text \<open>The counters at the start of the loop.\<close>

definition counters0 :: counters where
  "counters0 = \<lparr>success_count = 0, skip_count = 0, fail_count = 0, git_count = 0\<rparr>"

subsection \<open>A small machine for examples\<close>

text \<open>
  A machine on which the functions can be run: two URLs are served (\<^verbatim>\<open>u1\<close> with the
  content \<^verbatim>\<open>x\<close>, \<^verbatim>\<open>u2\<close> with \<^verbatim>\<open>y\<close>), git always succeeds, the digest of a content is
  the content itself, and path components are joined with a slash. On the second
  machine every URL is served \<^verbatim>\<open>stale\<close> at the first request and \<^verbatim>\<open>fresh\<close> afterwards.
\<close>

definition test_env :: env where
  "test_env =
     \<lparr>net_urlopen = (\<lambda>u t. if u = ''u1'' then Some ''x''
                            else if u = ''u2'' then Some ''y'' else None),
      net_git = (\<lambda>cmd t. GitOk), sha256_hexdigest = (\<lambda>content. content),
      joinpath = (\<lambda>a b. a @ ''/'' @ b)\<rparr>"

definition test_env_changing :: env where
  "test_env_changing =
     \<lparr>net_urlopen = (\<lambda>u t. if t = 0 then Some ''stale'' else Some ''fresh''),
      net_git = (\<lambda>cmd t. GitOk), sha256_hexdigest = (\<lambda>content. content),
      joinpath = (\<lambda>a b. a @ ''/'' @ b)\<rparr>"

definition empty_world :: world where
  "empty_world = \<lparr>files = Map.empty, dirs = Map.empty, requests = [], git_calls = []\<rparr>"

definition test_world :: world where
  "test_world =
     \<lparr>files = [''d'' \<mapsto> ''x''], dirs = [''r'' \<mapsto> True], requests = [], git_calls = []\<rparr>"

definition file_source :: "string \<Rightarrow> string \<Rightarrow> string \<Rightarrow> string list option \<Rightarrow> source" where
  "file_source url name sha only =
     \<lparr>src_type = Some ''file'', src_url = Some url, src_commit = None, src_dest = None,
      src_dest_filename = Some name, src_sha256 = Some sha, src_only_arches = only\<rparr>"

section \<open>The spec file updater\<close>

text \<open>
  \<^verbatim>\<open>key\s+.*$\<close> at one position, under \<^verbatim>\<open>re.MULTILINE\<close>: the literal \<open>key\<close>, the
  longest run of whitespace (at least one character; it may run over newlines) and then
  the rest of the line it ends in. The value is the text after the match, which is empty
  or begins with a newline.
\<close>

definition match_line :: "string \<Rightarrow> string \<Rightarrow> string option" where
  "match_line key s =
     (case strip_prefix key s of
        None \<Rightarrow> None
      | Some r \<Rightarrow>
          if takeWhile py_isspace r = [] then None
          else Some (dropWhile (\<lambda>c. c \<noteq> CHR 0x0A) (dropWhile py_isspace r)))"

lemma strip_prefix_length: "strip_prefix key s = Some r \<Longrightarrow> length r \<le> length s"
  by (induction key s rule: strip_prefix.induct) (auto split: if_splits)

lemma match_line_length: "match_line key s = Some rest \<Longrightarrow> length rest < length s"
proof -
  assume a: "match_line key s = Some rest"
  then obtain r where r: "strip_prefix key s = Some r" "takeWhile py_isspace r \<noteq> []"
    "rest = dropWhile (\<lambda>c. c \<noteq> CHR 0x0A) (dropWhile py_isspace r)"
    by (auto simp: match_line_def split: option.splits if_splits)
  have "length (dropWhile py_isspace r) < length r"
    using r(2) by (cases r) (auto simp: le_imp_less_Suc length_dropWhile_le split: if_splits)
  moreover have "length rest \<le> length (dropWhile py_isspace r)"
    unfolding r(3) by (rule length_dropWhile_le)
  ultimately show ?thesis using strip_prefix_length[OF r(1)] by simp
qed

text \<open>
  \<^verbatim>\<open>re.sub(r'^key\s+.*$', repl, content, flags=re.MULTILINE)\<close> for a replacement used
  as it is written: the text is scanned from left to right; a match can begin only at
  the beginning of a line; each match is replaced and the scan goes on after it.
\<close>

function re_sub_from :: "string \<Rightarrow> string \<Rightarrow> bool \<Rightarrow> string \<Rightarrow> string" where
  "re_sub_from key repl bol [] = []"
| "re_sub_from key repl bol (c # cs) =
     (case (if bol then match_line key (c # cs) else None) of
        Some rest \<Rightarrow> repl @ re_sub_from key repl False rest
      | None \<Rightarrow> c # re_sub_from key repl (c = CHR 0x0A) cs)"
  by pat_completeness auto
termination
  by (relation "measure (\<lambda>(key, repl, bol, s). length s)")
     (auto split: if_splits dest: match_line_length)

text \<open>
  \<^verbatim>\<open>re.sub\<close> reads backslash escapes in the replacement; a replacement without
  a backslash is used as it is written. The model covers these replacements only:
  \<open>None\<close> stands for a replacement with a backslash, which Python expands or rejects.
\<close>

definition re_sub_line :: "string \<Rightarrow> string \<Rightarrow> string \<Rightarrow> string option" where
  "re_sub_line key repl content =
     (if CHR 0x5C \<in> set repl then None else Some (re_sub_from key repl True content))"

text \<open>
  Reading a file in text mode turns a carriage return with a newline after it, and
  every other carriage return, into a newline.
\<close>

fun universal_newlines :: "string \<Rightarrow> string" where
  "universal_newlines [] = []"
| "universal_newlines [c] = (if c = CHR 0x0D then [CHR 0x0A] else [c])"
| "universal_newlines (c # d # cs) =
     (if c = CHR 0x0D \<and> d = CHR 0x0A then CHR 0x0A # universal_newlines cs
      else if c = CHR 0x0D then CHR 0x0A # universal_newlines (d # cs)
      else c # universal_newlines (d # cs))"

text \<open>
  \<^verbatim>\<open>update_spec_file\<close>. The spec file is \<open>None\<close> when it does not exist and
  otherwise the text that stands in it; the script reads it in text mode and writes the
  new text as it is (the line separator of the system is the newline). The f-string of
  the \<^verbatim>\<open>Release\<close> line converts the release to text, which raises beyond the limit of
  digits. The value is \<open>None\<close> when a replacement is outside the model, an exception
  that leaves the function, or the file afterwards with the value returned.
\<close>

definition update_spec_file ::
    "nat \<Rightarrow> string option \<Rightarrow> string \<Rightarrow> string option \<Rightarrow> string option \<Rightarrow> int option
     \<Rightarrow> (exn + string option \<times> bool) option" where
  "update_spec_file max_str_digits spec_file version theia_version electron_version release =
     (case spec_file of
        None \<Rightarrow> Some (Inr (None, False))
      | Some on_disk \<Rightarrow>
          (let original_content = universal_newlines on_disk in
           case re_sub_line ''Version:'' (''Version:        '' @ version) original_content of
             None \<Rightarrow> None
           | Some c1 \<Rightarrow>
          (case (case release of
                   None \<Rightarrow> Inr None
                 | Some r \<Rightarrow>
                     (case py_str max_str_digits r of
                        Inl e \<Rightarrow> Inl e
                      | Inr s \<Rightarrow> Inr (Some s))) of
             Inl e \<Rightarrow> Some (Inl e)
           | Inr release_text \<Rightarrow>
          (case (case release_text of
                   None \<Rightarrow> Some c1
                 | Some s \<Rightarrow>
                     re_sub_line ''Release:'' (''Release:        '' @ s @ ''%{?dist}'') c1) of
             None \<Rightarrow> None
           | Some c2 \<Rightarrow>
          (case (if truthy theia_version
                 then re_sub_line ''%global theia_version''
                        (''%global theia_version '' @ the theia_version) c2
                 else Some c2) of
             None \<Rightarrow> None
           | Some c3 \<Rightarrow>
          (case (if truthy electron_version
                 then re_sub_line ''%global electron_version''
                        (''%global electron_version '' @ the electron_version) c3
                 else Some c3) of
             None \<Rightarrow> None
           | Some content \<Rightarrow>
               if content \<noteq> original_content then Some (Inr (Some content, True))
               else Some (Inr (Some on_disk, False))))))))"

subsection \<open>Texts that a substitution leaves alone\<close>

text \<open>
  \<open>stable_from key repl bol s\<close>: scanning \<open>s\<close> as \<open>re_sub_from\<close> does, every match is
  already the replacement. Two keys are apart when they differ at a position that both
  have, so that no text begins with both. A key and the rest of its replacement are a
  field when the key has no newline and does not begin with whitespace, and the rest
  begins with whitespace, has a character that is not whitespace, and has no newline.
  A value is plain when it has a character that is not whitespace and has no newline,
  no carriage return and no backslash.
\<close>

function stable_from :: "string \<Rightarrow> string \<Rightarrow> bool \<Rightarrow> string \<Rightarrow> bool" where
  "stable_from key repl bol [] = True"
| "stable_from key repl bol (c # cs) =
     (case (if bol then match_line key (c # cs) else None) of
        Some rest \<Rightarrow> c # cs = repl @ rest \<and> stable_from key repl False rest
      | None \<Rightarrow> stable_from key repl (c = CHR 0x0A) cs)"
  by pat_completeness auto
termination
  by (relation "measure (\<lambda>(key, repl, bol, s). length s)")
     (auto split: if_splits dest: match_line_length)

fun apart :: "string \<Rightarrow> string \<Rightarrow> bool" where
  "apart (a # as) (b # bs) = (a \<noteq> b \<or> apart as bs)"
| "apart as bs = False"

definition field :: "string \<Rightarrow> string \<Rightarrow> bool" where
  "field key pad \<longleftrightarrow>
     key \<noteq> [] \<and> \<not> py_isspace (hd key) \<and> CHR 0x0A \<notin> set key \<and>
     takeWhile py_isspace pad \<noteq> [] \<and> dropWhile py_isspace pad \<noteq> [] \<and>
     CHR 0x0A \<notin> set pad"

definition plain_value :: "string \<Rightarrow> bool" where
  "plain_value v \<longleftrightarrow>
     (\<exists>c \<in> set v. \<not> py_isspace c) \<and> CHR 0x0A \<notin> set v \<and> CHR 0x0D \<notin> set v \<and>
     CHR 0x5C \<notin> set v"

section \<open>Properties of the driver\<close>

text \<open>
  C8: the version is the explicitly supplied one when there is one (the flag before the
  positional argument). Otherwise, with \<^verbatim>\<open>--github-latest\<close>, it is the name of the
  first tag of the remote list with its leading \<^verbatim>\<open>v\<close> removed, and the run ends with
  exit status 1 when the request fails, the list is empty, the first tag has no name or
  nothing is left of the name. Otherwise it is the \<^verbatim>\<open>version\<close> entry of the local
  \<^verbatim>\<open>package.json\<close>, and the run ends with exit status 1 when the file is missing or
  unreadable or has no version or an empty one. The source that was not selected is
  never consulted.
\<close>

theorem main_version_priority:
  "(truthy (arg_version_opt a) \<longrightarrow>
      main_version a github pkg = Inr (the (arg_version_opt a))) \<and>
   (\<not> truthy (arg_version_opt a) \<and> truthy (arg_version a) \<longrightarrow>
      main_version a github pkg = Inr (the (arg_version a))) \<and>
   (\<not> truthy (arg_version_opt a) \<and> \<not> truthy (arg_version a) \<and> arg_github_latest a \<longrightarrow>
      (\<forall>name rest. github = Tags (Some name # rest) \<and> lstrip_v name \<noteq> [] \<longrightarrow>
         main_version a github pkg = Inr (lstrip_v name)) \<and>
      (github = TagsError \<or> github = Tags [] \<or> (\<exists>rest. github = Tags (None # rest)) \<or>
       (\<exists>name rest. github = Tags (Some name # rest) \<and> lstrip_v name = []) \<longrightarrow>
         main_version a github pkg = Inl (SystemExit 1))) \<and>
   (\<not> truthy (arg_version_opt a) \<and> \<not> truthy (arg_version a) \<and> \<not> arg_github_latest a \<longrightarrow>
      (\<forall>v. pkg = PkgParsed (Some v) \<and> v \<noteq> [] \<longrightarrow> main_version a github pkg = Inr v) \<and>
      (pkg = PkgMissing \<or> pkg = PkgUnreadable \<or> pkg = PkgParsed None \<or>
       pkg = PkgParsed (Some []) \<longrightarrow>
         main_version a github pkg = Inl (SystemExit 1)))"
proof -
  have l: "lstrip_v [] = []" by (simp add: lstrip_v_def)
  have n: "lstrip_v name \<noteq> [] \<Longrightarrow> name \<noteq> []" for name using l by auto
  show ?thesis
    by (auto simp: main_version_def py_or_def Let_def l dest: n split: option.splits if_splits)
qed

theorem main_version_priority_witness:
  "main_version
     \<lparr>arg_version = Some ''1.2.3'', arg_version_opt = None, arg_output = None,
      arg_github_latest = True, arg_skip_main_source = False, arg_skip_plugins = False,
      arg_skip_deps = False, arg_only_main_source = False, arg_only_plugins = False,
      arg_only_deps = False, arg_copr = False, arg_no_update_spec = False\<rparr>
     (Tags [Some ''v9.9.9'']) (PkgParsed (Some ''0.0.1'')) = Inr ''1.2.3'' \<and>
   main_version
     \<lparr>arg_version = None, arg_version_opt = None, arg_output = None,
      arg_github_latest = True, arg_skip_main_source = False, arg_skip_plugins = False,
      arg_skip_deps = False, arg_only_main_source = False, arg_only_plugins = False,
      arg_only_deps = False, arg_copr = False, arg_no_update_spec = False\<rparr>
     (Tags [Some ''v9.9.9'', Some ''v9.9.8'']) (PkgParsed (Some ''0.0.1'')) = Inr ''9.9.9'' \<and>
   main_version
     \<lparr>arg_version = None, arg_version_opt = None, arg_output = None,
      arg_github_latest = True, arg_skip_main_source = False, arg_skip_plugins = False,
      arg_skip_deps = False, arg_only_main_source = False, arg_only_plugins = False,
      arg_only_deps = False, arg_copr = False, arg_no_update_spec = False\<rparr>
     TagsError (PkgParsed (Some ''0.0.1'')) = Inl (SystemExit 1) \<and>
   main_version
     \<lparr>arg_version = None, arg_version_opt = None, arg_output = None,
      arg_github_latest = False, arg_skip_main_source = False, arg_skip_plugins = False,
      arg_skip_deps = False, arg_only_main_source = False, arg_only_plugins = False,
      arg_only_deps = False, arg_copr = False, arg_no_update_spec = False\<rparr>
     (Tags [Some ''v9.9.9'']) (PkgParsed (Some ''0.0.1'')) = Inr ''0.0.1'' \<and>
   main_version
     \<lparr>arg_version = None, arg_version_opt = None, arg_output = None,
      arg_github_latest = False, arg_skip_main_source = False, arg_skip_plugins = False,
      arg_skip_deps = False, arg_only_main_source = False, arg_only_plugins = False,
      arg_only_deps = False, arg_copr = False, arg_no_update_spec = False\<rparr>
     (Tags [Some ''v9.9.9'']) PkgMissing = Inl (SystemExit 1)"
proof -
  let ?a1 = "\<lparr>arg_version = Some ''1.2.3'', arg_version_opt = None, arg_output = None,
      arg_github_latest = True, arg_skip_main_source = False, arg_skip_plugins = False,
      arg_skip_deps = False, arg_only_main_source = False, arg_only_plugins = False,
      arg_only_deps = False, arg_copr = False, arg_no_update_spec = False\<rparr>"
  let ?a2 = "\<lparr>arg_version = None, arg_version_opt = None, arg_output = None,
      arg_github_latest = True, arg_skip_main_source = False, arg_skip_plugins = False,
      arg_skip_deps = False, arg_only_main_source = False, arg_only_plugins = False,
      arg_only_deps = False, arg_copr = False, arg_no_update_spec = False\<rparr>"
  let ?a3 = "\<lparr>arg_version = None, arg_version_opt = None, arg_output = None,
      arg_github_latest = False, arg_skip_main_source = False, arg_skip_plugins = False,
      arg_skip_deps = False, arg_only_main_source = False, arg_only_plugins = False,
      arg_only_deps = False, arg_copr = False, arg_no_update_spec = False\<rparr>"
  have s: "lstrip_v ''v9.9.9'' = ''9.9.9''" by (simp add: lstrip_v_def)
  note t = main_version_priority
  from t[of ?a1 "Tags [Some ''v9.9.9'']" "PkgParsed (Some ''0.0.1'')"]
  have 1: "main_version ?a1 (Tags [Some ''v9.9.9'']) (PkgParsed (Some ''0.0.1''))
      = Inr ''1.2.3''"
    by simp
  from t[of ?a2 "Tags [Some ''v9.9.9'', Some ''v9.9.8'']" "PkgParsed (Some ''0.0.1'')"] s
  have 2: "main_version ?a2 (Tags [Some ''v9.9.9'', Some ''v9.9.8''])
      (PkgParsed (Some ''0.0.1'')) = Inr ''9.9.9''"
    by simp
  from t[of ?a2 TagsError "PkgParsed (Some ''0.0.1'')"]
  have 3: "main_version ?a2 TagsError (PkgParsed (Some ''0.0.1'')) = Inl (SystemExit 1)"
    by simp
  from t[of ?a3 "Tags [Some ''v9.9.9'']" "PkgParsed (Some ''0.0.1'')"]
  have 4: "main_version ?a3 (Tags [Some ''v9.9.9'']) (PkgParsed (Some ''0.0.1''))
      = Inr ''0.0.1''"
    by simp
  from t[of ?a3 "Tags [Some ''v9.9.9'']" PkgMissing]
  have 5: "main_version ?a3 (Tags [Some ''v9.9.9'']) PkgMissing = Inl (SystemExit 1)"
    by simp
  from 1 2 3 4 5 show ?thesis by blast
qed

text \<open>
  C9: \<^verbatim>\<open>--only-main-source\<close> wins over \<^verbatim>\<open>--only-plugins\<close>, which wins over
  \<^verbatim>\<open>--only-deps\<close>; with any of them set the \<^verbatim>\<open>--skip-*\<close> flags have no effect (the
  result is the same whatever they are); with none set each part is generated unless its
  skip flag is set.
\<close>

theorem main_gen_flags_first_match:
  "(arg_only_main_source a \<longrightarrow>
      main_gen_flags a = \<lparr>gen_main = True, gen_plugins = False, gen_deps = False\<rparr>) \<and>
   (\<not> arg_only_main_source a \<and> arg_only_plugins a \<longrightarrow>
      main_gen_flags a = \<lparr>gen_main = False, gen_plugins = True, gen_deps = False\<rparr>) \<and>
   (\<not> arg_only_main_source a \<and> \<not> arg_only_plugins a \<and> arg_only_deps a \<longrightarrow>
      main_gen_flags a = \<lparr>gen_main = False, gen_plugins = False, gen_deps = True\<rparr>) \<and>
   (arg_only_main_source a \<or> arg_only_plugins a \<or> arg_only_deps a \<longrightarrow>
      main_gen_flags (a\<lparr>arg_skip_main_source := s1, arg_skip_plugins := s2,
                         arg_skip_deps := s3\<rparr>) = main_gen_flags a) \<and>
   (\<not> arg_only_main_source a \<and> \<not> arg_only_plugins a \<and> \<not> arg_only_deps a \<longrightarrow>
      main_gen_flags a =
        \<lparr>gen_main = \<not> arg_skip_main_source a, gen_plugins = \<not> arg_skip_plugins a,
         gen_deps = \<not> arg_skip_deps a\<rparr>)"
  by (simp add: main_gen_flags_def)

theorem main_gen_flags_first_match_witness:
  "main_gen_flags
     \<lparr>arg_version = None, arg_version_opt = None, arg_output = None,
      arg_github_latest = False, arg_skip_main_source = True, arg_skip_plugins = True,
      arg_skip_deps = True, arg_only_main_source = False, arg_only_plugins = True,
      arg_only_deps = True, arg_copr = False, arg_no_update_spec = False\<rparr>
   = \<lparr>gen_main = False, gen_plugins = True, gen_deps = False\<rparr>"
  using main_gen_flags_first_match
    [of "\<lparr>arg_version = None, arg_version_opt = None, arg_output = None,
      arg_github_latest = False, arg_skip_main_source = True, arg_skip_plugins = True,
      arg_skip_deps = True, arg_only_main_source = False, arg_only_plugins = True,
      arg_only_deps = True, arg_copr = False, arg_no_update_spec = False\<rparr>"]
  by simp

text \<open>
  C10: in COPR mode with no (truthy) \<^verbatim>\<open>--output\<close> value, the output directory is the
  value of \<^verbatim>\<open>COPR_RESULTDIR\<close> when that variable is set, else the value of
  \<^verbatim>\<open>resultdir\<close> when that one is set, else \<^verbatim>\<open>/workdir/rpm\<close>.
\<close>

theorem main_output_dir_copr:
  "\<not> truthy (arg_output a) \<and> arg_copr a \<longrightarrow>
     main_output_dir a environ =
       Path (case environ ''COPR_RESULTDIR'' of
               Some v \<Rightarrow> v
             | None \<Rightarrow> (case environ ''resultdir'' of
                          Some v \<Rightarrow> v
                        | None \<Rightarrow> ''/workdir/rpm''))"
  by (simp add: main_output_dir_def environ_get_def split: option.splits)

theorem main_output_dir_copr_witness:
  "main_output_dir
     \<lparr>arg_version = None, arg_version_opt = None, arg_output = None,
      arg_github_latest = False, arg_skip_main_source = False, arg_skip_plugins = False,
      arg_skip_deps = False, arg_only_main_source = False, arg_only_plugins = False,
      arg_only_deps = False, arg_copr = True, arg_no_update_spec = False\<rparr>
     Map.empty = Path ''/workdir/rpm'' \<and>
   main_output_dir
     \<lparr>arg_version = None, arg_version_opt = None, arg_output = None,
      arg_github_latest = False, arg_skip_main_source = False, arg_skip_plugins = False,
      arg_skip_deps = False, arg_only_main_source = False, arg_only_plugins = False,
      arg_only_deps = False, arg_copr = True, arg_no_update_spec = False\<rparr>
     [''resultdir'' \<mapsto> ''/r''] = Path ''/r''"
  using main_output_dir_copr
    [of "\<lparr>arg_version = None, arg_version_opt = None, arg_output = None,
      arg_github_latest = False, arg_skip_main_source = False, arg_skip_plugins = False,
      arg_skip_deps = False, arg_only_main_source = False, arg_only_plugins = False,
      arg_only_deps = False, arg_copr = True, arg_no_update_spec = False\<rparr>" Map.empty]
    main_output_dir_copr
    [of "\<lparr>arg_version = None, arg_version_opt = None, arg_output = None,
      arg_github_latest = False, arg_skip_main_source = False, arg_skip_plugins = False,
      arg_skip_deps = False, arg_only_main_source = False, arg_only_plugins = False,
      arg_only_deps = False, arg_copr = True, arg_no_update_spec = False\<rparr>"
      "[''resultdir'' \<mapsto> ''/r'']"]
  by simp


section \<open>Properties of the release-number resolver\<close>

lemma search_from_Some: "search_from m bol s = Some g \<Longrightarrow> \<exists>t. m t = Some g"
  by (induction s arbitrary: bol) (auto split: if_splits option.splits)

lemma match_key_group_Some:
  "match_key_group key C s = Some g \<Longrightarrow> g \<noteq> [] \<and> (\<forall>c \<in> set g. C c)"
  by (auto simp: match_key_group_def Let_def split: option.splits if_splits
      dest: set_takeWhileD)

lemma py_strip_no_space: "\<forall>c \<in> set g. \<not> py_isspace c \<Longrightarrow> py_strip g = g"
proof -
  assume a: "\<forall>c \<in> set g. \<not> py_isspace c"
  have d: "dropWhile py_isspace xs = xs" if "\<forall>c \<in> set xs. \<not> py_isspace c" for xs
    using that by (cases xs) auto
  from a have "dropWhile py_isspace (rev g) = rev g" by (intro d) simp
  with a show ?thesis by (simp add: py_strip_def d)
qed

lemma version_match_group:
  "version_match content = Some vg \<Longrightarrow> vg \<noteq> [] \<and> py_strip vg = vg"
  by (auto simp: version_match_def re_search_multiline_def
      dest!: search_from_Some match_key_group_Some intro: py_strip_no_space)

declare str_nat.simps [simp del]

lemma str_nat_digits: "set (str_nat n) \<subseteq> set ''0123456789''"
proof (induction n rule: str_nat.induct)
  case (1 n)
  have d: "''0123456789'' ! m \<in> set ''0123456789''" if "m < 10" for m
    using that by (intro nth_mem) simp
  show ?case
  proof (cases "n < 10")
    case True
    then have "str_nat n = [''0123456789'' ! n]" by (subst str_nat.simps) simp
    with d[OF True] show ?thesis by simp
  next
    case False
    then have e: "str_nat n = str_nat (n div 10) @ [''0123456789'' ! (n mod 10)]"
      by (subst str_nat.simps) simp
    have "n mod 10 < 10" by simp
    from d[OF this] 1[OF False] show ?thesis unfolding e by simp
  qed
qed

lemma str_int_chars: "set (str_int i) \<subseteq> insert CHR ''-'' (set ''0123456789'')"
proof (cases "i < 0")
  case True
  then have "str_int i = CHR ''-'' # str_nat (nat (- i))" by (simp add: str_int_def)
  then show ?thesis using str_nat_digits[of "nat (- i)"] by (simp add: subset_insertI2)
next
  case False
  then have "str_int i = str_nat (nat i)" by (simp add: str_int_def)
  then show ?thesis using str_nat_digits[of "nat i"] by (simp add: subset_insertI2)
qed

lemma str_nat_length_le: "n < 10 ^ k \<Longrightarrow> 0 < k \<Longrightarrow> length (str_nat n) \<le> k"
proof (induction k arbitrary: n)
  case 0
  then show ?case by simp
next
  case (Suc k)
  show ?case
  proof (cases "n < 10")
    case True
    then have "str_nat n = [''0123456789'' ! n]" by (subst str_nat.simps) simp
    then show ?thesis by simp
  next
    case False
    then have e: "str_nat n = str_nat (n div 10) @ [''0123456789'' ! (n mod 10)]"
      by (subst str_nat.simps) simp
    from Suc.prems(1) have d: "n div 10 < 10 ^ k"
      by (simp add: less_mult_imp_div_less mult.commute)
    with False have "0 < k" by (cases k) auto
    with Suc.IH[OF d] show ?thesis unfolding e by simp
  qed
qed

lemma str_nat_length_ge: "10 ^ k \<le> n \<Longrightarrow> k < length (str_nat n)"
proof (induction k arbitrary: n)
  case 0
  have "str_nat n \<noteq> []" by (subst str_nat.simps) simp
  then show ?case by simp
next
  case (Suc k)
  then have "10 \<le> n" using order_trans[of 10 "10 ^ Suc k" n] by simp
  then have e: "str_nat n = str_nat (n div 10) @ [''0123456789'' ! (n mod 10)]"
    by (subst str_nat.simps) simp
  from Suc.prems have "10 ^ k \<le> n div 10" by (simp add: less_eq_div_iff_mult_less_eq mult.commute)
  from Suc.IH[OF this] show ?case unfolding e by simp
qed

lemma digit_value_range: "py_isdigit c \<Longrightarrow> 0 \<le> digit_value c \<and> digit_value c \<le> 9"
  by (auto simp: py_isdigit_def digit_value_def)

lemma decimal_value_bound:
  "\<forall>c \<in> set ds. py_isdigit c \<Longrightarrow> 0 \<le> a \<Longrightarrow>
   0 \<le> foldl (\<lambda>a c. 10 * a + digit_value c) a ds \<and>
   foldl (\<lambda>a c. 10 * a + digit_value c) a ds < (a + 1) * 10 ^ length ds"
proof (induction ds arbitrary: a)
  case Nil
  then show ?case by simp
next
  case (Cons c ds)
  from Cons.prems digit_value_range[of c]
  have r: "0 \<le> digit_value c" "digit_value c \<le> 9" by auto
  with Cons.prems have 0: "0 \<le> 10 * a + digit_value c" by simp
  from Cons.IH[OF _ 0] Cons.prems
  have i: "0 \<le> foldl (\<lambda>a c. 10 * a + digit_value c) (10 * a + digit_value c) ds"
    "foldl (\<lambda>a c. 10 * a + digit_value c) (10 * a + digit_value c) ds
       < (10 * a + digit_value c + 1) * 10 ^ length ds"
    by auto
  have "(10 * a + digit_value c + 1) * 10 ^ length ds \<le> (10 * (a + 1)) * 10 ^ length ds"
    using r by (intro mult_right_mono) simp_all
  with i(2)
  have "foldl (\<lambda>a c. 10 * a + digit_value c) (10 * a + digit_value c) ds
      < (10 * (a + 1)) * 10 ^ length ds"
    by (rule less_le_trans)
  moreover have "(10 * (a + 1)) * 10 ^ length ds = (a + 1) * 10 ^ length (c # ds)"
    by simp
  ultimately have "foldl (\<lambda>a c. 10 * a + digit_value c) (10 * a + digit_value c) ds
      < (a + 1) * 10 ^ length (c # ds)"
    by (simp only:)
  with i(1) show ?case by simp
qed

lemma release_match_digits:
  "release_match content = Some rg \<Longrightarrow> rg \<noteq> [] \<and> (\<forall>c \<in> set rg. py_isdigit c)"
  by (auto simp: release_match_def re_search_multiline_def
      dest!: search_from_Some match_key_group_Some)

lemma over_limit_mono: "over_limit l d \<Longrightarrow> d \<le> d' \<Longrightarrow> over_limit l d'"
  by (auto simp: over_limit_def)

lemma py_int_str:
  assumes "py_int l rg = Inr r" and "rg \<noteq> []" and "\<forall>c \<in> set rg. py_isdigit c"
  shows "0 \<le> r \<and> py_str l r = Inr (str_int r)"
proof -
  from assms(1) have r: "r = foldl (\<lambda>a c. 10 * a + digit_value c) 0 rg"
    and o: "\<not> over_limit l (length rg)"
    by (auto simp: py_int_def split: if_splits)
  from decimal_value_bound[OF assms(3), of 0] r
  have b: "0 \<le> r" "r < 10 ^ length rg" by auto
  then have "nat \<bar>r\<bar> < 10 ^ length rg" by (simp add: nat_less_iff)
  from str_nat_length_le[OF this] assms(2)
  have "length (str_nat (nat \<bar>r\<bar>)) \<le> length rg" by simp
  with o over_limit_mono have "\<not> over_limit l (length (str_nat (nat \<bar>r\<bar>)))" by blast
  with b show ?thesis by (simp add: py_str_def)
qed

lemma py_str_one: "py_str l 1 = Inr ''1''"
proof -
  have "str_nat 1 = ''1''" by (subst str_nat.simps) simp
  then show ?thesis by (simp add: py_str_def over_limit_def str_int_def)
qed

text \<open>
  C1, as the code has it. The first progress line stands before the \<^verbatim>\<open>try\<close>: if it
  cannot be printed, the exception reaches the caller; otherwise, and if the three lines
  of the handler can be printed, \<^verbatim>\<open>get_copr_release_number\<close> returns a number. When the
  fetched spec file has a \<^verbatim>\<open>Version\<close> and a \<^verbatim>\<open>Release\<close> field and the release
  converts to a number \<open>r\<close>, the parsed version is the matched group itself and
  \<^item> if it is the requested version, \<open>r + 1\<close> is within the limit of digits of the
    conversion to text and the progress line of line 442 prints, the result is \<open>r + 1\<close>;
  \<^item> if it is not the requested version and the progress line of line 446 prints, the
    result is \<open>1\<close>.
  In every other case in which the handler's lines print the result is \<open>1\<close>: the fetch
  fails in any way, among them \<^verbatim>\<open>curl\<close> running into its timeout of 10 seconds, a
  field is not found, the release does not convert, \<open>r + 1\<close> is beyond the limit of
  digits, or a progress line inside the \<^verbatim>\<open>try\<close> cannot be printed.
\<close>

theorem get_copr_release_number_cases:
  "(\<not> print_ok env 398 \<longrightarrow> get_copr_release_number env version ow pr pk = Inl OSError) \<and>
   (print_ok env 398 \<and> print_ok env 451 \<and> print_ok env 452 \<and> print_ok env 453 \<longrightarrow>
      (\<exists>r. get_copr_release_number env version ow pr pk = Inr r)) \<and>
   (print_ok env 398 \<longrightarrow>
      (\<forall>content vg rg r.
         fetch_spec env (distgit_url ow pr pk) = Inr content \<and>
         version_match content = Some vg \<and> release_match content = Some rg \<and>
         py_int (int_max_str_digits env) rg = Inr r \<longrightarrow>
         py_strip vg = vg \<and> 0 \<le> r \<and>
         (vg = version \<and>
          \<not> over_limit (int_max_str_digits env) (length (str_nat (nat (r + 1)))) \<and>
          print_ok env 442 \<longrightarrow>
            get_copr_release_number env version ow pr pk = Inr (r + 1)) \<and>
         (vg \<noteq> version \<and> print_ok env 446 \<longrightarrow>
            get_copr_release_number env version ow pr pk = Inr 1))) \<and>
   (print_ok env 398 \<and> print_ok env 451 \<and> print_ok env 452 \<and> print_ok env 453 \<longrightarrow>
      (\<forall>e. fetch_spec env (distgit_url ow pr pk) = Inl e \<longrightarrow>
         get_copr_release_number env version ow pr pk = Inr 1) \<and>
      (which_curl env \<and>
       run_curl env [''curl'', ''-s'', ''-f'', ''-L'', distgit_url ow pr pk] 10
         = CurlTimeoutExpired \<longrightarrow>
         get_copr_release_number env version ow pr pk = Inr 1) \<and>
      (\<forall>content.
         fetch_spec env (distgit_url ow pr pk) = Inr content \<and>
         (version_match content = None \<or> release_match content = None) \<longrightarrow>
         get_copr_release_number env version ow pr pk = Inr 1) \<and>
      (\<forall>content vg rg.
         fetch_spec env (distgit_url ow pr pk) = Inr content \<and>
         version_match content = Some vg \<and> release_match content = Some rg \<longrightarrow>
         (\<forall>e. py_int (int_max_str_digits env) rg = Inl e \<longrightarrow>
            get_copr_release_number env version ow pr pk = Inr 1) \<and>
         (\<forall>r. py_int (int_max_str_digits env) rg = Inr r \<and> vg = version \<and>
              (over_limit (int_max_str_digits env) (length (str_nat (nat (r + 1)))) \<or>
               \<not> print_ok env 442) \<longrightarrow>
            get_copr_release_number env version ow pr pk = Inr 1) \<and>
         (\<forall>r. py_int (int_max_str_digits env) rg = Inr r \<and> vg \<noteq> version \<and>
              \<not> print_ok env 446 \<longrightarrow>
            get_copr_release_number env version ow pr pk = Inr 1)))"
proof -
  let ?url = "distgit_url ow pr pk"
  let ?l = "int_max_str_digits env"
  let ?res = "get_copr_release_number env version ow pr pk"
  have handler: "print_ok env 398 \<Longrightarrow> print_ok env 451 \<Longrightarrow> print_ok env 452 \<Longrightarrow>
      print_ok env 453 \<Longrightarrow> ?res = Inr 1 \<or> (\<exists>r. copr_release_try env version ?url = Inr r \<and> ?res = Inr r)"
    by (cases "copr_release_try env version ?url")
       (simp_all add: get_copr_release_number_def seq_def py_print_def)
  have fail: "print_ok env 398 \<Longrightarrow> print_ok env 451 \<Longrightarrow> print_ok env 452 \<Longrightarrow>
      print_ok env 453 \<Longrightarrow> copr_release_try env version ?url = Inl e \<Longrightarrow> ?res = Inr 1" for e
    by (simp add: get_copr_release_number_def seq_def py_print_def)
  have ok: "print_ok env 398 \<Longrightarrow> copr_release_try env version ?url = Inr r \<Longrightarrow> ?res = Inr r"
    for r
    by (simp add: get_copr_release_number_def seq_def py_print_def)
  have one: "print_ok env 398 \<Longrightarrow> print_ok env 451 \<Longrightarrow> print_ok env 452 \<Longrightarrow>
      print_ok env 453 \<Longrightarrow> copr_release_try env version ?url = Inr 1 \<or>
        (\<exists>e. copr_release_try env version ?url = Inl e) \<Longrightarrow> ?res = Inr 1"
    using fail ok by blast
  have parsed: "py_strip vg = vg \<and> 0 \<le> r \<and> py_str ?l r = Inr (str_int r) \<and>
      copr_release_try env version ?url =
        (if vg = version then
           (if over_limit ?l (length (str_nat (nat (r + 1)))) then Inl ValueError
            else if print_ok env 442 then Inr (r + 1) else Inl OSError)
         else (if print_ok env 446 then Inr 1 else Inl OSError))"
    if "fetch_spec env ?url = Inr content" "version_match content = Some vg"
      "release_match content = Some rg" "py_int ?l rg = Inr r" for content vg rg r
  proof -
    from version_match_group[OF that(2)] have v: "py_strip vg = vg" by simp
    from release_match_digits[OF that(3)] py_int_str[OF that(4)]
    have r: "0 \<le> r" "py_str ?l r = Inr (str_int r)" by auto
    then have a: "\<bar>r + 1\<bar> = r + 1" by simp
    show ?thesis
      using that v r
      by (simp add: copr_release_try_def copr_release_parse_def seq_def py_print_def
          py_str_one Let_def) (simp add: py_str_def a)
  qed
  show ?thesis
  proof (intro conjI allI impI)
    assume "\<not> print_ok env 398"
    then show "?res = Inl OSError"
      by (simp add: get_copr_release_number_def seq_def py_print_def)
  next
    assume "print_ok env 398 \<and> print_ok env 451 \<and> print_ok env 452 \<and> print_ok env 453"
    with handler show "\<exists>r. ?res = Inr r" by blast
  next
    fix content vg rg r
    assume p: "print_ok env 398"
      and a: "fetch_spec env ?url = Inr content \<and> version_match content = Some vg \<and>
        release_match content = Some rg \<and> py_int ?l rg = Inr r"
    from a parsed[of content vg rg r] show "py_strip vg = vg" "0 \<le> r" by blast+
    {
      assume "vg = version \<and> \<not> over_limit ?l (length (str_nat (nat (r + 1)))) \<and>
          print_ok env 442"
      with a parsed[of content vg rg r] have "copr_release_try env version ?url = Inr (r + 1)"
        by simp
      with p ok show "?res = Inr (r + 1)" by blast
    }
    {
      assume "vg \<noteq> version \<and> print_ok env 446"
      with a parsed[of content vg rg r] have "copr_release_try env version ?url = Inr 1"
        by simp
      with p ok show "?res = Inr 1" by blast
    }
  next
    fix e
    assume p: "print_ok env 398 \<and> print_ok env 451 \<and> print_ok env 452 \<and> print_ok env 453"
      and "fetch_spec env ?url = Inl e"
    then have "copr_release_try env version ?url = Inl e"
      by (simp add: copr_release_try_def seq_def)
    with p one show "?res = Inr 1" by blast
  next
    assume p: "print_ok env 398 \<and> print_ok env 451 \<and> print_ok env 452 \<and> print_ok env 453"
      and "which_curl env \<and>
        run_curl env [''curl'', ''-s'', ''-f'', ''-L'', ?url] 10 = CurlTimeoutExpired"
    then have "copr_release_try env version ?url = Inl (Exception ''curl failed'')"
      by (simp add: copr_release_try_def seq_def fetch_spec_def)
    with p one show "?res = Inr 1" by blast
  next
    fix content
    assume p: "print_ok env 398 \<and> print_ok env 451 \<and> print_ok env 452 \<and> print_ok env 453"
      and "fetch_spec env ?url = Inr content \<and>
        (version_match content = None \<or> release_match content = None)"
    then have "copr_release_try env version ?url = Inr 1 \<or>
        (\<exists>e. copr_release_try env version ?url = Inl e)"
      by (auto simp: copr_release_try_def copr_release_parse_def seq_def py_print_def
          split: option.splits)
    with p one show "?res = Inr 1" by blast
  next
    fix content vg rg e
    assume p: "print_ok env 398 \<and> print_ok env 451 \<and> print_ok env 452 \<and> print_ok env 453"
      and "fetch_spec env ?url = Inr content \<and> version_match content = Some vg \<and>
        release_match content = Some rg"
      and "py_int ?l rg = Inl e"
    then have "copr_release_try env version ?url = Inl e"
      by (simp add: copr_release_try_def copr_release_parse_def seq_def)
    with p one show "?res = Inr 1" by blast
  next
    fix content vg rg r
    assume p: "print_ok env 398 \<and> print_ok env 451 \<and> print_ok env 452 \<and> print_ok env 453"
      and a: "fetch_spec env ?url = Inr content \<and> version_match content = Some vg \<and>
        release_match content = Some rg"
      and b: "py_int ?l rg = Inr r \<and> vg = version \<and>
        (over_limit ?l (length (str_nat (nat (r + 1)))) \<or> \<not> print_ok env 442)"
    with parsed[of content vg rg r]
    have "\<exists>e. copr_release_try env version ?url = Inl e" by auto
    with p one show "?res = Inr 1" by blast
  next
    fix content vg rg r
    assume p: "print_ok env 398 \<and> print_ok env 451 \<and> print_ok env 452 \<and> print_ok env 453"
      and a: "fetch_spec env ?url = Inr content \<and> version_match content = Some vg \<and>
        release_match content = Some rg"
      and b: "py_int ?l rg = Inr r \<and> vg \<noteq> version \<and> \<not> print_ok env 446"
    with parsed[of content vg rg r]
    have "\<exists>e. copr_release_try env version ?url = Inl e" by auto
    with p one show "?res = Inr 1" by blast
  qed
qed

lemma example_spec_fields:
  "version_match (''Version: 1.67.100'' @ [CHR 0x0A] @ ''Release: 3'' @ [CHR 0x0A])
     = Some ''1.67.100''"
  "release_match (''Version: 1.67.100'' @ [CHR 0x0A] @ ''Release: 3'' @ [CHR 0x0A])
     = Some ''3''"
  "py_int 4300 ''3'' = Inr 3"
  by (simp_all add: version_match_def release_match_def re_search_multiline_def
      match_key_group_def py_isspace_def py_isdigit_def py_int_def digit_value_def
      over_limit_def)

text \<open>
  The scenario of the specification: the fetched file reports version 1.67.100 and
  release 3, and every line prints; the request for 1.67.100 resolves to 4, the request
  for 1.68.0 to 1, and a fetch that runs into the timeout to 1.
\<close>

theorem get_copr_release_number_cases_witness:
  "get_copr_release_number
     \<lparr>which_curl = True,
      run_curl = (\<lambda>cmd t. CurlCompleted
        (Some (''Version: 1.67.100'' @ [CHR 0x0A] @ ''Release: 3'' @ [CHR 0x0A]))),
      urlopen_timeout = (\<lambda>u h t. UrlopenError), int_max_str_digits = 4300,
      print_ok = (\<lambda>line. True)\<rparr>
     ''1.67.100'' ''lorbus'' ''theia'' ''theia-ide'' = Inr 4 \<and>
   get_copr_release_number
     \<lparr>which_curl = True,
      run_curl = (\<lambda>cmd t. CurlCompleted
        (Some (''Version: 1.67.100'' @ [CHR 0x0A] @ ''Release: 3'' @ [CHR 0x0A]))),
      urlopen_timeout = (\<lambda>u h t. UrlopenError), int_max_str_digits = 4300,
      print_ok = (\<lambda>line. True)\<rparr>
     ''1.68.0'' ''lorbus'' ''theia'' ''theia-ide'' = Inr 1 \<and>
   get_copr_release_number
     \<lparr>which_curl = True, run_curl = (\<lambda>cmd t. CurlTimeoutExpired),
      urlopen_timeout = (\<lambda>u h t. UrlopenError), int_max_str_digits = 4300,
      print_ok = (\<lambda>line. True)\<rparr>
     ''1.67.100'' ''lorbus'' ''theia'' ''theia-ide'' = Inr 1"
proof -
  let ?c = "''Version: 1.67.100'' @ [CHR 0x0A] @ ''Release: 3'' @ [CHR 0x0A]"
  let ?env = "\<lparr>which_curl = True, run_curl = (\<lambda>cmd t. CurlCompleted (Some ?c)),
      urlopen_timeout = (\<lambda>u h t. UrlopenError), int_max_str_digits = 4300,
      print_ok = (\<lambda>line. True)\<rparr>"
  let ?bad = "\<lparr>which_curl = True, run_curl = (\<lambda>cmd t. CurlTimeoutExpired),
      urlopen_timeout = (\<lambda>u h t. UrlopenError), int_max_str_digits = 4300,
      print_ok = (\<lambda>line. True)\<rparr>"
  have f: "fetch_spec ?env (distgit_url ''lorbus'' ''theia'' ''theia-ide'') = Inr ?c"
    by (simp add: fetch_spec_def)
  have h: "fetch_spec ?env (distgit_url ''lorbus'' ''theia'' ''theia-ide'') = Inr ?c \<and>
      version_match ?c = Some ''1.67.100'' \<and> release_match ?c = Some ''3'' \<and>
      py_int (int_max_str_digits ?env) ''3'' = Inr 3"
    using f example_spec_fields by simp
  have "str_nat 4 = ''4''" by (subst str_nat.simps) simp
  then have o: "\<not> over_limit (int_max_str_digits ?env) (length (str_nat (nat (3 + 1))))"
    by (simp add: over_limit_def)
  have p: "print_ok ?env n" "print_ok ?bad n" for n by simp_all
  have t: "which_curl ?bad \<and>
      run_curl ?bad [''curl'', ''-s'', ''-f'', ''-L'',
        distgit_url ''lorbus'' ''theia'' ''theia-ide''] 10 = CurlTimeoutExpired"
    by simp
  have p4: "print_ok ?bad 398 \<and> print_ok ?bad 451 \<and> print_ok ?bad 452 \<and> print_ok ?bad 453"
    by simp
  from get_copr_release_number_cases
         [of ?env "''1.67.100''" "''lorbus''" "''theia''" "''theia-ide''",
          THEN conjunct2, THEN conjunct2, THEN conjunct1, rule_format, OF p(1) h] o
  have 1: "get_copr_release_number ?env ''1.67.100'' ''lorbus'' ''theia'' ''theia-ide''
      = Inr (3 + 1)"
    by simp
  from get_copr_release_number_cases
         [of ?env "''1.68.0''" "''lorbus''" "''theia''" "''theia-ide''",
          THEN conjunct2, THEN conjunct2, THEN conjunct1, rule_format, OF p(1) h]
  have 2: "get_copr_release_number ?env ''1.68.0'' ''lorbus'' ''theia'' ''theia-ide''
      = Inr 1"
    by simp
  from get_copr_release_number_cases
         [of ?bad "''1.67.100''" "''lorbus''" "''theia''" "''theia-ide''",
          THEN conjunct2, THEN conjunct2, THEN conjunct2, rule_format, OF p4] t
  have 3: "get_copr_release_number ?bad ''1.67.100'' ''lorbus'' ''theia'' ''theia-ide''
      = Inr 1"
    by simp
  from 1 2 3 show ?thesis by simp
qed

lemma nines_value:
  "foldl (\<lambda>a c. 10 * a + digit_value c) a (replicate n CHR ''9'') = (a + 1) * 10 ^ n - 1"
proof (induction n arbitrary: a)
  case 0
  then show ?case by simp
next
  case (Suc n)
  have "digit_value CHR ''9'' = 9" by (simp add: digit_value_def)
  then show ?case using Suc[of "10 * a + 9"] by (simp add: algebra_simps)
qed

lemma release_digits_match:
  assumes "ds \<noteq> []" and "\<forall>c \<in> set ds. py_isdigit c"
  shows "version_match (''Version: 1.0'' @ [CHR 0x0A] @ ''Release: '' @ ds) = Some ''1.0''"
    and "release_match (''Version: 1.0'' @ [CHR 0x0A] @ ''Release: '' @ ds) = Some ds"
proof -
  have "\<not> py_isspace c" if "py_isdigit c" for c
    using that by (auto simp: py_isdigit_def py_isspace_def)
  with assms have "dropWhile py_isspace ds = ds" by (cases ds) auto
  moreover from assms(2) have "takeWhile py_isdigit ds = ds" by simp
  ultimately have e: "dropWhile py_isspace ds = ds" "takeWhile py_isdigit ds = ds"
    by simp_all
  show "version_match (''Version: 1.0'' @ [CHR 0x0A] @ ''Release: '' @ ds) = Some ''1.0''"
    by (simp add: version_match_def re_search_multiline_def match_key_group_def
        py_isspace_def)
  show "release_match (''Version: 1.0'' @ [CHR 0x0A] @ ''Release: '' @ ds) = Some ds"
    using assms(1)
    by (simp add: release_match_def re_search_multiline_def match_key_group_def
        py_isspace_def Let_def e)
qed

lemma nines_release:
  assumes "640 \<le> n"
  shows "get_copr_release_number
     \<lparr>which_curl = True,
      run_curl = (\<lambda>cmd t. CurlCompleted
        (Some (''Version: 1.0'' @ [CHR 0x0A] @ ''Release: '' @ replicate n CHR ''9''))),
      urlopen_timeout = (\<lambda>u h t. UrlopenError), int_max_str_digits = n,
      print_ok = (\<lambda>line. True)\<rparr>
     ''1.0'' ''lorbus'' ''theia'' ''theia-ide'' = Inr 1"
    and "py_int n (replicate n CHR ''9'') = Inr (10 ^ n - 1)"
proof -
  let ?ds = "replicate n CHR ''9''"
  let ?c = "''Version: 1.0'' @ [CHR 0x0A] @ ''Release: '' @ ?ds"
  let ?env = "\<lparr>which_curl = True, run_curl = (\<lambda>cmd t. CurlCompleted (Some ?c)),
      urlopen_timeout = (\<lambda>u h t. UrlopenError), int_max_str_digits = n,
      print_ok = (\<lambda>line. True)\<rparr>"
  have d: "?ds \<noteq> []" "\<forall>c \<in> set ?ds. py_isdigit c"
    using assms by (auto simp: py_isdigit_def)
  show i: "py_int n ?ds = Inr (10 ^ n - 1)"
    using nines_value[of 0 n] by (simp add: py_int_def over_limit_def)
  have m: "(10::nat) ^ n \<le> nat (10 ^ n - 1 + 1)" by (simp add: nat_power_eq)
  from str_nat_length_ge[OF m] assms
  have o: "over_limit n (length (str_nat (nat (10 ^ n - 1 + 1))))"
    by (simp add: over_limit_def)
  have f: "fetch_spec ?env (distgit_url ''lorbus'' ''theia'' ''theia-ide'') = Inr ?c"
    by (simp add: fetch_spec_def)
  have p: "print_ok ?env l" for l by simp
  have h: "fetch_spec ?env (distgit_url ''lorbus'' ''theia'' ''theia-ide'') = Inr ?c \<and>
      version_match ?c = Some ''1.0'' \<and> release_match ?c = Some ?ds"
    using f release_digits_match[OF d] by simp
  have p4: "print_ok ?env 398 \<and> print_ok ?env 451 \<and> print_ok ?env 452 \<and> print_ok ?env 453"
    by simp
  from get_copr_release_number_cases
         [of ?env "''1.0''" "''lorbus''" "''theia''" "''theia-ide''",
          THEN conjunct2, THEN conjunct2, THEN conjunct2, rule_format, OF p4,
          THEN conjunct2, THEN conjunct2, THEN conjunct2, rule_format, OF h,
          THEN conjunct2, THEN conjunct1, rule_format, of "10 ^ n - 1"] i o
  show "get_copr_release_number ?env ''1.0'' ''lorbus'' ''theia'' ''theia-ide'' = Inr 1"
    by simp
qed

text \<open>
  The claim as stated fails: the fetched file has both fields, the version is the
  requested one and the release is the number written with 640 nines, which converts
  under the limit of 640 digits. Its successor has 641 digits, the f-string of line 442
  raises \<^verbatim>\<open>ValueError\<close> inside the \<^verbatim>\<open>try\<close>, and the result is 1 and not the
  parsed release plus 1.
\<close>

theorem get_copr_release_number_digit_limit_counterexample:
  "get_copr_release_number
     \<lparr>which_curl = True,
      run_curl = (\<lambda>cmd t. CurlCompleted
        (Some (''Version: 1.0'' @ [CHR 0x0A] @ ''Release: '' @ replicate 640 CHR ''9''))),
      urlopen_timeout = (\<lambda>u h t. UrlopenError), int_max_str_digits = 640,
      print_ok = (\<lambda>line. True)\<rparr>
     ''1.0'' ''lorbus'' ''theia'' ''theia-ide'' = Inr 1 \<and>
   version_match (''Version: 1.0'' @ [CHR 0x0A] @ ''Release: '' @ replicate 640 CHR ''9'')
     = Some ''1.0'' \<and>
   release_match (''Version: 1.0'' @ [CHR 0x0A] @ ''Release: '' @ replicate 640 CHR ''9'')
     = Some (replicate 640 CHR ''9'') \<and>
   py_int 640 (replicate 640 CHR ''9'') = Inr (10 ^ 640 - 1)"
proof -
  have n: "(640::nat) \<le> 640" by simp
  have d: "replicate 640 CHR ''9'' \<noteq> []" "\<forall>c \<in> set (replicate 640 CHR ''9''). py_isdigit c"
    by (auto simp: py_isdigit_def)
  note r = nines_release[OF n] release_digits_match[OF d]
  show ?thesis by (intro conjI) (rule r)+
qed

section \<open>Properties of downloads and of the dependency pass\<close>


lemma step_arch_skipped:
  "arch_skipped s \<Longrightarrow>
   download_step e out (w, c) s = (w, c\<lparr>skip_count := skip_count c + 1\<rparr>)"
  by (auto simp: arch_skipped_def download_step_def arches_def Let_def)

lemma step_file_attempted:
  "file_attempted s \<Longrightarrow>
   download_step e out (w, c) s =
     (let r = download_file e w (the (src_url s)) (file_dest_path e out s) (src_sha256 s)
      in (snd r, if fst r then c\<lparr>success_count := success_count c + 1\<rparr>
                 else c\<lparr>fail_count := fail_count c + 1\<rparr>))"
  by (auto simp: file_attempted_def arch_skipped_def download_step_def arches_def Let_def
      split: prod.splits)

lemma step_git_attempted:
  "git_attempted s \<Longrightarrow>
   download_step e out (w, c) s =
     (let r = clone_git_repo e w (the (src_url s)) (the (src_commit s))
                (joinpath e out (the (src_dest s)))
      in (snd r, if fst r then c\<lparr>git_count := git_count c + 1,
                                  success_count := success_count c + 1\<rparr>
                 else c\<lparr>fail_count := fail_count c + 1\<rparr>))"
  by (auto simp: git_attempted_def download_step_def Let_def split: prod.splits)

lemma step_not_attempted:
  "\<not> attempted s \<Longrightarrow> \<not> arch_skipped s \<Longrightarrow> download_step e out (w, c) s = (w, c)"
  by (auto simp: attempted_def git_attempted_def file_attempted_def arch_skipped_def
      download_step_def arches_def Let_def)

lemma attempted_disjoint: "arch_skipped s \<Longrightarrow> \<not> attempted s"
  by (auto simp: attempted_def git_attempted_def file_attempted_def arch_skipped_def)

lemma git_not_file: "git_attempted s \<Longrightarrow> \<not> file_attempted s"
  by (auto simp: git_attempted_def file_attempted_def)

lemma step_counts:
  "success_count (snd (download_step e out st s)) + fail_count (snd (download_step e out st s))
     = success_count (snd st) + fail_count (snd st) + (if attempted s then 1 else 0) \<and>
   skip_count (snd (download_step e out st s))
     = skip_count (snd st) + (if arch_skipped s then 1 else 0) \<and>
   fail_count (snd st) \<le> fail_count (snd (download_step e out st s))"
proof (cases st)
  case (Pair w c)
  consider "arch_skipped s" | "file_attempted s" | "git_attempted s"
    | "\<not> attempted s" "\<not> arch_skipped s"
    by (auto simp: attempted_def)
  then show ?thesis
  proof cases
    case 1
    then show ?thesis using Pair attempted_disjoint[OF 1] by (simp add: step_arch_skipped)
  next
    case 2
    then have "attempted s" "\<not> arch_skipped s"
      by (auto simp: attempted_def file_attempted_def)
    then show ?thesis using Pair 2 by (simp add: step_file_attempted Let_def)
  next
    case 3
    then have "attempted s" "\<not> arch_skipped s"
      by (auto simp: attempted_def git_attempted_def arch_skipped_def)
    then show ?thesis using Pair 3 by (simp add: step_git_attempted Let_def)
  next
    case 4
    then show ?thesis using Pair by (simp add: step_not_attempted)
  qed
qed

lemma loop_counts:
  "success_count (snd (download_loop e out st xs)) + fail_count (snd (download_loop e out st xs))
     = success_count (snd st) + fail_count (snd st) + length (filter attempted xs) \<and>
   skip_count (snd (download_loop e out st xs))
     = skip_count (snd st) + length (filter arch_skipped xs) \<and>
   fail_count (snd st) \<le> fail_count (snd (download_loop e out st xs))"
proof (induction xs arbitrary: st)
  case Nil
  then show ?case by simp
next
  case (Cons s xs)
  from Cons.IH[of "download_step e out st s"] step_counts[of e out st s]
  show ?case by (simp split: if_splits)
qed



lemma run_git_files: "files (snd (run_git e w cmd)) = files w"
  by (simp add: run_git_def)







lemma download_dependencies_alt:
  "download_dependencies e w sources out =
     (\<not> 0 < fail_count (snd (download_loop e out (w, counters0) sources)),
      download_loop e out (w, counters0) sources)"
  by (simp add: download_dependencies_def counters0_def split: prod.splits)






text \<open>
  C3, as the code has it: \<^verbatim>\<open>download_file\<close> opens the URL at most once in a call. With
  a declared checksum and no matching file in place, a downloaded body that fails the
  check makes the call fail at once: the one request is the only one, and the file is
  removed. The only second download is that of a file found in place with a wrong
  checksum, which is deleted and fetched once.
\<close>

theorem download_file_single_request:
  "(requests (snd (download_file e w url dest_path expected)) = requests w \<or>
    requests (snd (download_file e w url dest_path expected)) = requests w @ [url]) \<and>
   (truthy expected \<and>
    (\<forall>content. files w dest_path = Some content \<longrightarrow>
       sha256_hexdigest e content \<noteq> the expected) \<and>
    net_urlopen e url (length (requests w)) = Some body \<and>
    sha256_hexdigest e body \<noteq> the expected \<longrightarrow>
    fst (download_file e w url dest_path expected) = False \<and>
    requests (snd (download_file e w url dest_path expected)) = requests w @ [url] \<and>
    files (snd (download_file e w url dest_path expected)) dest_path = None)"
  by (auto simp: download_file_def download_try_def verify_sha256_def unlink_def Let_def
      split: option.splits)

theorem download_file_single_request_witness:
  "fst (download_file test_env test_world ''u2'' ''d'' (Some ''z'')) = False \<and>
   requests (snd (download_file test_env test_world ''u2'' ''d'' (Some ''z''))) = [''u2''] \<and>
   files (snd (download_file test_env test_world ''u2'' ''d'' (Some ''z''))) ''d'' = None"
proof -
  have "truthy (Some ''z'') \<and>
    (\<forall>content. files test_world ''d'' = Some content \<longrightarrow>
       sha256_hexdigest test_env content \<noteq> the (Some ''z'')) \<and>
    net_urlopen test_env ''u2'' (length (requests test_world)) = Some ''y'' \<and>
    sha256_hexdigest test_env ''y'' \<noteq> the (Some ''z'')"
    by (simp add: test_env_def test_world_def)
  with download_file_single_request[where e = test_env and w = test_world
      and url = "''u2''" and dest_path = "''d''" and expected = "Some ''z''"
      and body = "''y''"]
  show ?thesis by (simp add: test_world_def)
qed

text \<open>
  The claim as stated fails: the first answer to the URL does not match the declared
  checksum and a second answer would; the source is counted as failed after the single
  request, and the pass fails.
\<close>

theorem download_file_retry_counterexample:
  "fst (download_dependencies test_env_changing empty_world
     [file_source ''u'' ''a'' ''fresh'' None] ''out'') = False \<and>
   fail_count (snd (snd (download_dependencies test_env_changing empty_world
     [file_source ''u'' ''a'' ''fresh'' None] ''out''))) = 1 \<and>
   requests (fst (snd (download_dependencies test_env_changing empty_world
     [file_source ''u'' ''a'' ''fresh'' None] ''out''))) = [''u''] \<and>
   net_urlopen test_env_changing ''u'' 1 = Some ''fresh''"
  by (simp add: download_dependencies_def download_step_def download_file_def
      download_try_def verify_sha256_def unlink_def file_dest_path_def get_dest_subdir_def
      get_only_arches_def arches_def Let_def test_env_changing_def empty_world_def
      file_source_def)

text \<open>
  C4: a download whose declared checksum matches the file in place, and a clone whose
  destination holds a \<^verbatim>\<open>.git\<close> entry, succeed and leave the machine as it was: no URL
  is opened and no git command is run.
\<close>

theorem idempotent_success:
  "(files w dest_path = Some content \<and> truthy expected \<and>
      sha256_hexdigest e content = the expected \<longrightarrow>
      download_file e w url dest_path expected = (True, w)) \<and>
   (dirs w dest_path = Some True \<longrightarrow>
      clone_git_repo e w url commit dest_path = (True, w))"
  by (simp add: download_file_def clone_git_repo_def verify_sha256_def)

theorem idempotent_success_witness:
  "download_file test_env test_world ''u1'' ''d'' (Some ''x'') = (True, test_world) \<and>
   clone_git_repo test_env test_world ''g'' ''abc'' ''r'' = (True, test_world)"
proof -
  have 1: "files test_world ''d'' = Some ''x'' \<and> truthy (Some ''x'') \<and>
      sha256_hexdigest test_env ''x'' = the (Some ''x'')"
    by (simp add: test_env_def test_world_def)
  have 2: "dirs test_world ''r'' = Some True" by (simp add: test_world_def)
  from idempotent_success[where e = test_env and w = test_world and dest_path = "''d''"
      and content = "''x''" and expected = "Some ''x''" and url = "''u1''"] 1
  have a: "download_file test_env test_world ''u1'' ''d'' (Some ''x'') = (True, test_world)"
    by blast
  from idempotent_success[where e = test_env and w = test_world and dest_path = "''r''"
      and url = "''g''" and commit = "''abc''"] 2
  have b: "clone_git_repo test_env test_world ''g'' ''abc'' ''r'' = (True, test_world)"
    by blast
  from a b show ?thesis by blast
qed

text \<open>
  C5: with a declared (non-empty) checksum, when no file in place matches it and the
  request either fails or brings a body that does not match it, \<^verbatim>\<open>download_file\<close>
  returns failure and the destination file does not exist afterwards.
\<close>

theorem download_file_checksum_failure:
  "truthy expected \<and>
   (\<forall>content. files w dest_path = Some content \<longrightarrow>
      sha256_hexdigest e content \<noteq> the expected) \<and>
   (\<forall>body. net_urlopen e url (length (requests w)) = Some body \<longrightarrow>
      sha256_hexdigest e body \<noteq> the expected) \<longrightarrow>
   fst (download_file e w url dest_path expected) = False \<and>
   files (snd (download_file e w url dest_path expected)) dest_path = None"
  by (auto simp: download_file_def download_try_def verify_sha256_def unlink_def Let_def
      split: option.splits)

theorem download_file_checksum_failure_witness:
  "fst (download_file test_env test_world ''u9'' ''d'' (Some ''z'')) = False \<and>
   files (snd (download_file test_env test_world ''u9'' ''d'' (Some ''z''))) ''d'' = None"
proof -
  have "truthy (Some ''z'') \<and>
    (\<forall>content. files test_world ''d'' = Some content \<longrightarrow>
       sha256_hexdigest test_env content \<noteq> the (Some ''z'')) \<and>
    (\<forall>body. net_urlopen test_env ''u9'' (length (requests test_world)) = Some body \<longrightarrow>
       sha256_hexdigest test_env body \<noteq> the (Some ''z''))"
    by (simp add: test_env_def test_world_def)
  with download_file_checksum_failure[where e = test_env and w = test_world
      and url = "''u9''" and dest_path = "''d''" and expected = "Some ''z''"]
  show ?thesis by blast
qed

text \<open>
  C6: a \<^verbatim>\<open>file\<close> source whose \<^verbatim>\<open>only-arches\<close> is not empty and shares nothing with
  \<open>{x86_64, aarch64}\<close> is counted as skipped and leaves the machine as it was (nothing
  is requested, no file appears); a \<^verbatim>\<open>file\<close> source whose \<^verbatim>\<open>only-arches\<close> is absent,
  empty or names a target architecture leaves the skip counter as it was. Over the
  whole pass the skip counter is the number of sources of the first kind.
\<close>

theorem only_arches_skip:
  "(src_type source = Some ''file'' \<and> get_only_arches source \<noteq> [] \<and>
    set (get_only_arches source) \<inter> {''x86_64'', ''aarch64''} = {} \<longrightarrow>
      download_step e output_dir (w, c) source =
        (w, c\<lparr>skip_count := skip_count c + 1\<rparr>)) \<and>
   (src_type source = Some ''file'' \<and>
    (get_only_arches source = [] \<or>
     set (get_only_arches source) \<inter> {''x86_64'', ''aarch64''} \<noteq> {}) \<longrightarrow>
      skip_count (snd (download_step e output_dir (w, c) source)) = skip_count c) \<and>
   (get_only_arches source = [] \<longleftrightarrow>
      src_only_arches source = None \<or> src_only_arches source = Some []) \<and>
   skip_count (snd (snd (download_dependencies e w sources output_dir)))
     = length (filter arch_skipped sources)"
proof (intro conjI)
  show "skip_count (snd (snd (download_dependencies e w sources output_dir)))
     = length (filter arch_skipped sources)"
    using loop_counts[of e output_dir "(w, counters0)" sources]
    by (simp add: download_dependencies_alt counters0_def)
qed (auto simp: download_step_def arches_def Let_def get_only_arches_def
      split: prod.splits option.splits)

theorem only_arches_skip_witness:
  "download_step test_env ''out'' (empty_world, counters0)
     (file_source ''u2'' ''c'' ''y'' (Some [''i386'']))
   = (empty_world, counters0\<lparr>skip_count := 1\<rparr>) \<and>
   skip_count (snd (snd (download_dependencies test_env empty_world
     [file_source ''u2'' ''c'' ''y'' (Some [''i386'', ''arm'']),
      file_source ''u2'' ''b'' ''y'' (Some [''aarch64''])] ''out''))) = 1"
proof -
  let ?s = "file_source ''u2'' ''c'' ''y'' (Some [''i386''])"
  let ?l = "[file_source ''u2'' ''c'' ''y'' (Some [''i386'', ''arm'']),
      file_source ''u2'' ''b'' ''y'' (Some [''aarch64''])]"
  have h: "src_type ?s = Some ''file'' \<and> get_only_arches ?s \<noteq> [] \<and>
    set (get_only_arches ?s) \<inter> {''x86_64'', ''aarch64''} = {}"
    by (simp add: file_source_def get_only_arches_def)
  have n: "length (filter arch_skipped ?l) = 1"
    by (simp add: file_source_def get_only_arches_def arch_skipped_def)
  from only_arches_skip[where source = ?s and e = test_env and output_dir = "''out''"
      and w = empty_world and c = counters0 and sources = ?l] h n
  show ?thesis by (simp add: counters0_def)
qed

section \<open>Properties of the spec file updater\<close>

lemma strip_prefix_append: "strip_prefix k (k @ x) = Some x"
  by (induction k) simp_all

lemma strip_prefix_Some: "strip_prefix k s = Some r \<Longrightarrow> s = k @ r"
  by (induction k s rule: strip_prefix.induct) (simp_all split: if_splits)

lemma apart_strip: "apart k k' \<Longrightarrow> strip_prefix k (k' @ x) = None"
  by (induction k k' rule: apart.induct) auto

lemma dropWhile_newline:
  "dropWhile (\<lambda>c. c \<noteq> CHR 0x0A) xs = [] \<or> hd (dropWhile (\<lambda>c. c \<noteq> CHR 0x0A) xs) = CHR 0x0A"
  using hd_dropWhile[of "\<lambda>c. c \<noteq> CHR 0x0A" xs] by blast

lemma match_line_rest:
  assumes "match_line key s = Some rest"
  shows "rest = [] \<or> hd rest = CHR 0x0A"
proof -
  from assms obtain r where "dropWhile (\<lambda>c. c \<noteq> CHR 0x0A) (dropWhile py_isspace r) = rest"
    by (simp add: match_line_def split: option.splits if_splits)
  then show ?thesis using dropWhile_newline[of "dropWhile py_isspace r"] by simp
qed

lemma re_sub_from_False_start:
  "s = [] \<or> hd s = CHR 0x0A \<Longrightarrow>
   re_sub_from k r False s = [] \<or> hd (re_sub_from k r False s) = CHR 0x0A"
  by (cases s) auto

lemma match_line_repl:
  assumes "field key pad" and "z = [] \<or> hd z = CHR 0x0A"
  shows "match_line key (key @ pad @ z) = Some z"
proof -
  from assms(1) have a: "takeWhile py_isspace pad \<noteq> []" "dropWhile py_isspace pad \<noteq> []"
    "CHR 0x0A \<notin> set pad" by (auto simp: field_def)
  from a(1) have 1: "takeWhile py_isspace (pad @ z) \<noteq> []"
    by (cases pad) (auto split: if_splits)
  from a(2) obtain x where x: "x \<in> set pad" "\<not> py_isspace x"
    by (metis dropWhile_eq_Nil_conv)
  then have 2: "dropWhile py_isspace (pad @ z) = dropWhile py_isspace pad @ z"
    by (rule dropWhile_append1)
  have "CHR 0x0A \<notin> set (dropWhile py_isspace pad)"
    using a(3) set_dropWhileD by fastforce
  then have 3: "dropWhile (\<lambda>c. c \<noteq> CHR 0x0A) (dropWhile py_isspace pad @ z)
      = dropWhile (\<lambda>c. c \<noteq> CHR 0x0A) z"
    by (intro dropWhile_append2) auto
  have 4: "dropWhile (\<lambda>c. c \<noteq> CHR 0x0A) z = z"
    using assms(2) by (cases z) auto
  show ?thesis using 1 2 3 4 by (simp add: match_line_def strip_prefix_append)
qed

lemma match_line_None_iff:
  "(match_line key t = None) =
   (\<forall>r. strip_prefix key t = Some r \<longrightarrow> takeWhile py_isspace (take 1 r) = [])"
proof -
  have "(takeWhile py_isspace r = []) = (takeWhile py_isspace (take 1 r) = [])" for r
    by (cases r) simp_all
  then show ?thesis by (simp add: match_line_def split: option.splits)
qed

lemma strip_prefix_re_sub:
  "CHR 0x0A \<notin> set p \<Longrightarrow>
   map_option (take 1) (strip_prefix p (re_sub_from k r False s))
     = map_option (take 1) (strip_prefix p s)"
proof (induction p arbitrary: s)
  case Nil
  then show ?case by (cases s) simp_all
next
  case (Cons x p)
  show ?case
  proof (cases s)
    case Nil
    then show ?thesis by simp
  next
    case (Cons c cs)
    show ?thesis
    proof (cases "x = c")
      case True
      with Cons.prems have "c \<noteq> CHR 0x0A" by auto
      with True Cons.IH[of cs] Cons.prems \<open>s = c # cs\<close> show ?thesis by simp
    next
      case False
      with \<open>s = c # cs\<close> show ?thesis by simp
    qed
  qed
qed

lemma match_line_re_sub:
  assumes "CHR 0x0A \<notin> set key"
  shows "(match_line key (re_sub_from k r False s) = None) = (match_line key s = None)"
proof -
  define P where "P m = (case m of None \<Rightarrow> True | Some l \<Rightarrow> takeWhile py_isspace l = [])"
    for m :: "string option"
  have e: "(match_line key a = None) = P (map_option (take 1) (strip_prefix key a))" for a
    by (cases "strip_prefix key a") (simp_all add: match_line_None_iff P_def)
  show ?thesis unfolding e strip_prefix_re_sub[OF assms] ..
qed

lemma match_line_Cons: "match_line k s = Some rest \<Longrightarrow> \<exists>c cs. s = c # cs"
  using match_line_length[of k s rest] by (cases s) simp_all

lemma re_sub_from_match:
  "match_line k s = Some rest \<Longrightarrow> re_sub_from k r True s = r @ re_sub_from k r False rest"
proof -
  assume m: "match_line k s = Some rest"
  then obtain c cs where s: "s = c # cs" using match_line_Cons by blast
  from m show ?thesis unfolding s by simp
qed

lemma re_sub_from_nomatch:
  "match_line k s = None \<Longrightarrow> re_sub_from k r True s = re_sub_from k r False s"
  by (cases s) simp_all

lemma stable_from_match:
  "match_line k s = Some rest \<Longrightarrow>
   stable_from k r True s = (s = r @ rest \<and> stable_from k r False rest)"
proof -
  assume m: "match_line k s = Some rest"
  then obtain c cs where s: "s = c # cs" using match_line_Cons by blast
  from m show ?thesis unfolding s by simp
qed

lemma stable_from_nomatch:
  "match_line k s = None \<Longrightarrow> stable_from k r True s = stable_from k r False s"
  by (cases s) simp_all

lemma stable_from_append:
  "CHR 0x0A \<notin> set p \<Longrightarrow> stable_from k r False (p @ x) = stable_from k r False x"
  by (induction p) auto

lemma re_sub_from_append:
  "CHR 0x0A \<notin> set p \<Longrightarrow> re_sub_from k r False (p @ x) = p @ re_sub_from k r False x"
  by (induction p) auto

lemma stable_from_fixed: "stable_from k r b s \<Longrightarrow> re_sub_from k r b s = s"
proof (induction k r b s rule: re_sub_from.induct)
  case (1 key repl bol)
  then show ?case by simp
next
  case (2 key repl bol c cs)
  show ?case
  proof (cases "if bol then match_line key (c # cs) else None")
    case None
    with 2 show ?thesis by simp
  next
    case (Some rest)
    then have b: "bol" "match_line key (c # cs) = Some rest"
      by (simp_all split: if_splits)
    with "2.prems" have st: "c # cs = repl @ rest" "stable_from key repl False rest"
      by simp_all
    have "re_sub_from key repl bol (c # cs) = repl @ re_sub_from key repl False rest"
      using b by simp
    also have "\<dots> = repl @ rest"
      using "2.IH"(2)[OF Some st(2)] by simp
    finally show ?thesis using st(1) by simp
  qed
qed

lemma field_repl_no_newline: "field key pad \<Longrightarrow> CHR 0x0A \<notin> set (key @ pad)"
  by (simp add: field_def)

lemma re_sub_from_stable:
  assumes f: "field key pad"
  shows "stable_from key (key @ pad) b (re_sub_from key (key @ pad) b s)"
proof (induction s arbitrary: b rule: length_induct)
  case (1 s)
  show ?case
  proof (cases "b \<and> match_line key s \<noteq> None")
    case True
    then obtain rest where m: "match_line key s = Some rest" and b: b by auto
    let ?z = "re_sub_from key (key @ pad) False rest"
    have z: "?z = [] \<or> hd ?z = CHR 0x0A"
      using match_line_rest[OF m] by (rule re_sub_from_False_start)
    have mm: "match_line key ((key @ pad) @ ?z) = Some ?z"
      using match_line_repl[OF f z] by simp
    have "stable_from key (key @ pad) False ?z"
      using 1 match_line_length[OF m] by blast
    then have "stable_from key (key @ pad) True ((key @ pad) @ ?z)"
      unfolding stable_from_match[OF mm] by simp
    then show ?thesis using b by (simp add: re_sub_from_match[OF m])
  next
    case False
    show ?thesis
    proof (cases s)
      case Nil
      then show ?thesis by simp
    next
      case (Cons c cs)
      let ?y = "re_sub_from key (key @ pad) False s"
      have r: "re_sub_from key (key @ pad) b s = ?y"
        using False by (cases b) (simp_all add: re_sub_from_nomatch)
      have i: "stable_from key (key @ pad) (c = CHR 0x0A) (re_sub_from key (key @ pad) (c = CHR 0x0A) cs)"
        using 1 Cons by simp
      then have y: "stable_from key (key @ pad) False ?y" using Cons by simp
      show ?thesis
      proof (cases b)
        case True
        with False have "match_line key s = None" by simp
        then have "match_line key ?y = None"
          using match_line_re_sub[of key key "key @ pad" s] f by (simp add: field_def)
        then show ?thesis using y r True by (simp add: stable_from_nomatch)
      next
        case False
        then show ?thesis using y r by simp
      qed
    qed
  qed
qed

lemma match_line_space:
  assumes "key \<noteq> []" "\<not> py_isspace (hd key)" "py_isspace c"
  shows "match_line key (c # cs) = None"
proof -
  from assms obtain k ks where "key = k # ks" "k \<noteq> c" by (cases key) auto
  then show ?thesis by (simp add: match_line_def)
qed

lemma stable_from_line_end:
  assumes f: "field key pad"
  shows "stable_from key (key @ pad) b x \<Longrightarrow>
         stable_from key (key @ pad) False (dropWhile (\<lambda>c. c \<noteq> CHR 0x0A) x)"
proof (induction x arbitrary: b)
  case Nil
  then show ?case by simp
next
  case (Cons c cs)
  show ?case
  proof (cases "b \<and> match_line key (c # cs) \<noteq> None")
    case True
    then obtain rest where m: "match_line key (c # cs) = Some rest" and b: b by auto
    with Cons.prems have st: "c # cs = (key @ pad) @ rest" "stable_from key (key @ pad) False rest"
      by simp_all
    have "dropWhile (\<lambda>c. c \<noteq> CHR 0x0A) ((key @ pad) @ rest) = dropWhile (\<lambda>c. c \<noteq> CHR 0x0A) rest"
      using field_repl_no_newline[OF f] by (intro dropWhile_append2) auto
    also have "\<dots> = rest" using match_line_rest[OF m] by (cases rest) auto
    finally show ?thesis using st by simp
  next
    case False
    with Cons.prems have n: "stable_from key (key @ pad) (c = CHR 0x0A) cs"
      by (cases b) auto
    show ?thesis
    proof (cases "c = CHR 0x0A")
      case True
      with n show ?thesis by simp
    next
      case False
      with n Cons.IH[of False] show ?thesis by simp
    qed
  qed
qed

lemma stable_from_skip_space:
  assumes f: "field key pad"
  shows "stable_from key (key @ pad) b x \<Longrightarrow>
         \<exists>b'. stable_from key (key @ pad) b' (dropWhile py_isspace x)"
proof (induction x arbitrary: b)
  case Nil
  then show ?case by simp
next
  case (Cons c cs)
  show ?case
  proof (cases "py_isspace c")
    case True
    then have "match_line key (c # cs) = None"
      using f by (intro match_line_space) (simp_all add: field_def)
    with Cons.prems have "stable_from key (key @ pad) (c = CHR 0x0A) cs"
      by (cases b) simp_all
    from Cons.IH[OF this] True show ?thesis by simp
  next
    case False
    then have d: "dropWhile py_isspace (c # cs) = c # cs" by simp
    show ?thesis unfolding d using Cons.prems by (rule exI)
  qed
qed

lemma stable_from_after_match:
  assumes f: "field key pad" and n: "CHR 0x0A \<notin> set key'"
    and m: "match_line key' y = Some rest"
    and s: "stable_from key (key @ pad) False y"
  shows "stable_from key (key @ pad) False rest"
proof -
  from m obtain r where r: "strip_prefix key' y = Some r"
    "dropWhile (\<lambda>c. c \<noteq> CHR 0x0A) (dropWhile py_isspace r) = rest"
    by (auto simp: match_line_def split: option.splits if_splits)
  from strip_prefix_Some[OF r(1)] s n have "stable_from key (key @ pad) False r"
    by (simp add: stable_from_append)
  from stable_from_skip_space[OF f this] obtain b'
    where "stable_from key (key @ pad) b' (dropWhile py_isspace r)" ..
  from stable_from_line_end[OF f this] r(2) show ?thesis by simp
qed

lemma apart_match: "apart k k' \<Longrightarrow> match_line k (k' @ x) = None"
  by (simp add: match_line_def apart_strip)

lemma match_line_key: "match_line k y = Some rest \<Longrightarrow> \<exists>r. y = k @ r"
  by (auto simp: match_line_def split: option.splits dest: strip_prefix_Some)

lemma stable_from_preserved:
  assumes fi: "field ki pi" and fj: "field kj pj" and ap: "apart ki kj"
  shows "stable_from ki (ki @ pi) b y \<Longrightarrow>
         stable_from ki (ki @ pi) b (re_sub_from kj (kj @ pj) b y)"
proof (induction y arbitrary: b rule: length_induct)
  case (1 y)
  note st = \<open>stable_from ki (ki @ pi) b y\<close>
  have nj: "CHR 0x0A \<notin> set kj" and ni: "CHR 0x0A \<notin> set ki"
    using fi fj by (simp_all add: field_def)
  show ?case
  proof (cases "b \<and> match_line kj y \<noteq> None")
    case True
    then obtain rest where m: "match_line kj y = Some rest" and b: b by auto
    let ?z = "re_sub_from kj (kj @ pj) False rest"
    from match_line_key[OF m] obtain r where "y = kj @ r" ..
    then have "match_line ki y = None" using apart_match[OF ap] by simp
    with st b have "stable_from ki (ki @ pi) False y" by (simp add: stable_from_nomatch)
    from stable_from_after_match[OF fi nj m this]
    have "stable_from ki (ki @ pi) False rest" .
    with 1 match_line_length[OF m] have z: "stable_from ki (ki @ pi) False ?z" by blast
    have "match_line ki ((kj @ pj) @ ?z) = None" using apart_match[OF ap] by simp
    then have "stable_from ki (ki @ pi) True ((kj @ pj) @ ?z)
        = stable_from ki (ki @ pi) False ((kj @ pj) @ ?z)"
      by (rule stable_from_nomatch)
    also have "\<dots> = stable_from ki (ki @ pi) False ?z"
      using field_repl_no_newline[OF fj] by (rule stable_from_append)
    finally show ?thesis using z b by (simp add: re_sub_from_match[OF m])
  next
    case False
    show ?thesis
    proof (cases y)
      case Nil
      then show ?thesis by simp
    next
      case (Cons c cs)
      let ?y = "re_sub_from kj (kj @ pj) False y"
      have r: "re_sub_from kj (kj @ pj) b y = ?y"
        using False by (cases b) (simp_all add: re_sub_from_nomatch)
      show ?thesis
      proof (cases "b \<and> match_line ki y \<noteq> None")
        case True
        then obtain rest where m: "match_line ki y = Some rest" and b: b by auto
        let ?z = "re_sub_from kj (kj @ pj) False rest"
        from st b have y: "y = (ki @ pi) @ rest" and s: "stable_from ki (ki @ pi) False rest"
          by (simp_all add: stable_from_match[OF m])
        have "?y = re_sub_from kj (kj @ pj) False ((ki @ pi) @ rest)"
          using y by simp
        also have "\<dots> = (ki @ pi) @ ?z"
          using field_repl_no_newline[OF fi] by (rule re_sub_from_append)
        finally have e: "?y = (ki @ pi) @ ?z" .
        have "?z = [] \<or> hd ?z = CHR 0x0A"
          using match_line_rest[OF m] by (rule re_sub_from_False_start)
        from match_line_repl[OF fi this]
        have mm: "match_line ki ((ki @ pi) @ ?z) = Some ?z" by simp
        from 1 match_line_length[OF m] s have "stable_from ki (ki @ pi) False ?z" by blast
        then have "stable_from ki (ki @ pi) True ((ki @ pi) @ ?z)"
          unfolding stable_from_match[OF mm] by simp
        then show ?thesis using b r e by simp
      next
        case nm: False
        have "stable_from ki (ki @ pi) (c = CHR 0x0A) cs"
          using st nm Cons by (cases b) simp_all
        with 1 Cons
        have "stable_from ki (ki @ pi) (c = CHR 0x0A) (re_sub_from kj (kj @ pj) (c = CHR 0x0A) cs)"
          by simp
        then have y: "stable_from ki (ki @ pi) False ?y" using Cons by simp
        show ?thesis
        proof (cases b)
          case True
          with nm have "match_line ki y = None" by simp
          then have "match_line ki ?y = None"
            using match_line_re_sub[OF ni, of kj "kj @ pj" y] by simp
          then show ?thesis using y r True by (simp add: stable_from_nomatch)
        next
          case False
          then show ?thesis using y r by simp
        qed
      qed
    qed
  qed
qed

lemma plain_release: "plain_value (str_int n @ ''%{?dist}'')"
proof -
  have "CHR 0x0A \<notin> insert CHR ''-'' (set ''0123456789'')"
    "CHR 0x5C \<notin> insert CHR ''-'' (set ''0123456789'')"
    "CHR 0x0D \<notin> insert CHR ''-'' (set ''0123456789'')" by simp_all
  with str_int_chars[of n] have "CHR 0x0A \<notin> set (str_int n)" "CHR 0x5C \<notin> set (str_int n)"
    "CHR 0x0D \<notin> set (str_int n)"
    by blast+
  moreover have "\<not> py_isspace CHR ''%''" by (simp add: py_isspace_def)
  ultimately show ?thesis unfolding plain_value_def
    by (intro conjI bexI[of _ "CHR ''%''"]) simp_all
qed

lemma field_plain:
  assumes "k \<noteq> []" "\<not> py_isspace (hd k)" "CHR 0x0A \<notin> set k"
    and "sp \<noteq> []" "\<forall>c \<in> set sp. c = CHR '' ''" and "plain_value v"
  shows "field k (sp @ v)"
proof -
  have sp: "py_isspace CHR '' ''" by (simp add: py_isspace_def)
  from assms(4,5) obtain sp' where "sp = CHR '' '' # sp'" by (cases sp) auto
  with sp have 1: "takeWhile py_isspace (sp @ v) \<noteq> []" by simp
  from assms(6) obtain x where "x \<in> set (sp @ v)" "\<not> py_isspace x"
    by (auto simp: plain_value_def)
  then have 2: "dropWhile py_isspace (sp @ v) \<noteq> []"
    by (auto simp: dropWhile_eq_Nil_conv)
  have "CHR 0x0A \<notin> set sp"
  proof
    assume "CHR 0x0A \<in> set sp"
    with assms(5) have "CHR 0x0A = CHR '' ''" by blast
    then show False by simp
  qed
  moreover have "CHR 0x0A \<notin> set v" using assms(6) by (simp add: plain_value_def)
  ultimately have 3: "CHR 0x0A \<notin> set (sp @ v)" by simp
  show ?thesis unfolding field_def using assms(1-3) 1 2 3 by blast
qed

lemma field_version: "plain_value v \<Longrightarrow> field ''Version:'' (''        '' @ v)"
  by (rule field_plain) (simp_all add: py_isspace_def)

lemma field_release: "field ''Release:'' (''        '' @ str_int n @ ''%{?dist}'')"
  by (rule field_plain[OF _ _ _ _ _ plain_release]) (simp_all add: py_isspace_def)

lemma field_theia: "plain_value v \<Longrightarrow> field ''%global theia_version'' ('' '' @ v)"
  by (rule field_plain) (simp_all add: py_isspace_def)

lemma field_electron: "plain_value v \<Longrightarrow> field ''%global electron_version'' ('' '' @ v)"
  by (rule field_plain) (simp_all add: py_isspace_def)

lemma keys_apart:
  "apart ''Version:'' ''Release:''"
  "apart ''Version:'' ''%global theia_version''"
  "apart ''Version:'' ''%global electron_version''"
  "apart ''Release:'' ''Version:''"
  "apart ''Release:'' ''%global theia_version''"
  "apart ''Release:'' ''%global electron_version''"
  "apart ''%global theia_version'' ''Version:''"
  "apart ''%global theia_version'' ''Release:''"
  "apart ''%global theia_version'' ''%global electron_version''"
  "apart ''%global electron_version'' ''Version:''"
  "apart ''%global electron_version'' ''Release:''"
  "apart ''%global electron_version'' ''%global theia_version''"
  by simp_all

lemma universal_newlines_no_cr: "CHR 0x0D \<notin> set (universal_newlines s)"
  by (induction s rule: universal_newlines.induct) simp_all

lemma universal_newlines_id: "CHR 0x0D \<notin> set s \<Longrightarrow> universal_newlines s = s"
  by (induction s rule: universal_newlines.induct) auto

lemma match_line_set:
  assumes "match_line key s = Some rest"
  shows "set rest \<subseteq> set s"
proof -
  from assms obtain r where r: "strip_prefix key s = Some r"
    "rest = dropWhile (\<lambda>c. c \<noteq> CHR 0x0A) (dropWhile py_isspace r)"
    by (auto simp: match_line_def split: option.splits if_splits)
  have "set rest \<subseteq> set (dropWhile py_isspace r)"
    unfolding r(2) by (rule subsetI) (rule set_dropWhileD)
  also have "\<dots> \<subseteq> set r"
    by (rule subsetI) (rule set_dropWhileD)
  also have "\<dots> \<subseteq> set s" using strip_prefix_Some[OF r(1)] by simp
  finally show ?thesis .
qed

lemma re_sub_from_set: "set (re_sub_from k r b s) \<subseteq> set r \<union> set s"
proof (induction k r b s rule: re_sub_from.induct)
  case (1 key repl bol)
  then show ?case by simp
next
  case (2 key repl bol c cs)
  show ?case
  proof (cases "if bol then match_line key (c # cs) else None")
    case None
    then show ?thesis using "2.IH"(1)[OF None] by auto
  next
    case (Some rest)
    then have "match_line key (c # cs) = Some rest" by (simp split: if_splits)
    from match_line_set[OF this] "2.IH"(2)[OF Some] Some show ?thesis by auto
  qed
qed

lemma re_sub_from_no_cr:
  "CHR 0x0D \<notin> set r \<Longrightarrow> CHR 0x0D \<notin> set s \<Longrightarrow> CHR 0x0D \<notin> set (re_sub_from k r b s)"
  using re_sub_from_set[of k r b s] by blast

lemma update_spec_file_unfold:
  assumes bs: "CHR 0x5C \<notin> set version"
    "truthy theia_version \<Longrightarrow> CHR 0x5C \<notin> set (the theia_version)"
    "truthy electron_version \<Longrightarrow> CHR 0x5C \<notin> set (the electron_version)"
    "\<And>n. CHR 0x5C \<notin> set (str_int n)"
    and lim: "\<And>n. release = Some n \<Longrightarrow> \<not> over_limit l (length (str_nat (nat \<bar>n\<bar>)))"
  shows "\<exists>x. x =
          (if truthy electron_version
           then re_sub_from ''%global electron_version''
                  (''%global electron_version'' @ '' '' @ the electron_version) True
           else id)
          ((if truthy theia_version
            then re_sub_from ''%global theia_version''
                   (''%global theia_version'' @ '' '' @ the theia_version) True
            else id)
           ((case release of None \<Rightarrow> id
             | Some n \<Rightarrow> re_sub_from ''Release:''
                 (''Release:'' @ ''        '' @ str_int n @ ''%{?dist}'') True)
            (re_sub_from ''Version:'' (''Version:'' @ ''        '' @ version) True
               (universal_newlines d)))) \<and>
         update_spec_file l (Some d) version theia_version electron_version release
           = Some (Inr (if x \<noteq> universal_newlines d then (Some x, True)
                        else (Some d, False)))"
proof -
  have 1: "re_sub_line ''Version:'' (''Version:        '' @ version) x
      = Some (re_sub_from ''Version:'' (''Version:'' @ ''        '' @ version) True x)" for x
    using bs(1) by (simp add: re_sub_line_def)
  have 2: "re_sub_line ''Release:'' (''Release:        '' @ str_int n @ ''%{?dist}'') x
      = Some (re_sub_from ''Release:'' (''Release:'' @ ''        '' @ str_int n @ ''%{?dist}'') True x)"
    for x n
    using bs(4)[of n] by (simp add: re_sub_line_def)
  have 3: "truthy theia_version \<Longrightarrow>
      re_sub_line ''%global theia_version'' (''%global theia_version '' @ the theia_version) x
      = Some (re_sub_from ''%global theia_version''
               (''%global theia_version'' @ '' '' @ the theia_version) True x)" for x
    using bs(2) by (simp add: re_sub_line_def)
  have 4: "truthy electron_version \<Longrightarrow>
      re_sub_line ''%global electron_version''
        (''%global electron_version '' @ the electron_version) x
      = Some (re_sub_from ''%global electron_version''
               (''%global electron_version'' @ '' '' @ the electron_version) True x)" for x
    using bs(3) by (simp add: re_sub_line_def)
  have 5: "py_str l n = Inr (str_int n)" if "release = Some n" for n
    using lim[OF that] by (simp add: py_str_def)
  have fin: "(if x \<noteq> c then Some (Inr (Some x, True)) else Some (Inr (Some d, False)))
      = Some (Inr (if x \<noteq> c then (Some x, True) else (Some d, False)))" for x c
    by simp
  show ?thesis
    unfolding update_spec_file_def option.case Let_def 1
    by (cases release; cases "truthy theia_version"; cases "truthy electron_version")
       (simp_all only: 2 3 4 5 fin option.case sum.case if_True if_False id_apply if_P
          if_not_P simp_thms)
qed

lemma update_spec_file_twice:
  assumes pv: "plain_value version"
    and pt: "truthy theia_version \<longrightarrow> plain_value (the theia_version)"
    and pe: "truthy electron_version \<longrightarrow> plain_value (the electron_version)"
    and lim: "\<And>n. release = Some n \<Longrightarrow> \<not> over_limit l (length (str_nat (nat \<bar>n\<bar>)))"
  shows "\<exists>after changed.
           update_spec_file l (Some original) version theia_version electron_version release
             = Some (Inr (Some after, changed)) \<and>
           (changed \<longleftrightarrow> after \<noteq> original) \<and>
           update_spec_file l (Some after) version theia_version electron_version release
             = Some (Inr (Some after, False))"
proof -
  let ?kV = "''Version:''" and ?kR = "''Release:''"
  let ?kT = "''%global theia_version''" and ?kE = "''%global electron_version''"
  let ?pV = "''        '' @ version"
  let ?pT = "'' '' @ the theia_version" and ?pE = "'' '' @ the electron_version"
  define gV where "gV = re_sub_from ?kV (?kV @ ?pV) True"
  define gR where "gR = (case release of None \<Rightarrow> id
     | Some n \<Rightarrow> re_sub_from ?kR (?kR @ ''        '' @ str_int n @ ''%{?dist}'') True)"
  define gT where "gT = (if truthy theia_version
     then re_sub_from ?kT (?kT @ ?pT) True else id)"
  define gE where "gE = (if truthy electron_version
     then re_sub_from ?kE (?kE @ ?pE) True else id)"
  define sV where "sV c = stable_from ?kV (?kV @ ?pV) True c" for c
  define sR where "sR c = (case release of None \<Rightarrow> True
     | Some n \<Rightarrow> stable_from ?kR (?kR @ ''        '' @ str_int n @ ''%{?dist}'') True c)" for c
  define sT where "sT c = (truthy theia_version \<longrightarrow> stable_from ?kT (?kT @ ?pT) True c)" for c
  define sE where "sE c = (truthy electron_version \<longrightarrow> stable_from ?kE (?kE @ ?pE) True c)" for c
  define U where "U = universal_newlines"
  define cr where "cr = CHR 0x0D"
  note fV = field_version[OF pv]
  note fR = field_release
  have fT: "field ?kT ?pT" if "truthy theia_version" using that pt field_theia by blast
  have fE: "field ?kE ?pE" if "truthy electron_version" using that pe field_electron by blast
  have bs: "CHR 0x5C \<notin> set version"
    "truthy theia_version \<Longrightarrow> CHR 0x5C \<notin> set (the theia_version)"
    "truthy electron_version \<Longrightarrow> CHR 0x5C \<notin> set (the electron_version)"
    "CHR 0x5C \<notin> set (str_int n)" for n
    using pv pt pe plain_release[of n] by (simp_all add: plain_value_def)
  have u: "update_spec_file l (Some c) version theia_version electron_version release
      = Some (Inr (if gE (gT (gR (gV (U c)))) \<noteq> U c
                   then (Some (gE (gT (gR (gV (U c))))), True) else (Some c, False)))" for c
    using update_spec_file_unfold[OF bs lim, where d = c]
    unfolding gV_def gR_def gT_def gE_def U_def by blast
  have nV: "cr \<notin> set c \<Longrightarrow> cr \<notin> set (gV c)" for c unfolding gV_def cr_def
    using pv by (intro re_sub_from_no_cr) (simp_all add: plain_value_def)
  have nR: "cr \<notin> set c \<Longrightarrow> cr \<notin> set (gR c)" for c unfolding gR_def cr_def
    using plain_release
    by (cases release) (simp_all del: append.simps add: re_sub_from_no_cr plain_value_def)
  have nT: "cr \<notin> set c \<Longrightarrow> cr \<notin> set (gT c)" for c unfolding gT_def cr_def
    using pt by (simp del: append.simps add: re_sub_from_no_cr plain_value_def)
  have nE: "cr \<notin> set c \<Longrightarrow> cr \<notin> set (gE c)" for c unfolding gE_def cr_def
    using pe by (simp del: append.simps add: re_sub_from_no_cr plain_value_def)
  have VV: "sV (gV c)" for c unfolding sV_def gV_def by (rule re_sub_from_stable[OF fV])
  have RR: "sR (gR c)" for c unfolding sR_def gR_def
    by (cases release) (simp_all del: append.simps add: re_sub_from_stable[OF fR])
  have TT: "sT (gT c)" for c unfolding sT_def gT_def
    by (simp del: append.simps add: re_sub_from_stable[OF fT])
  have EE: "sE (gE c)" for c unfolding sE_def gE_def
    by (simp del: append.simps add: re_sub_from_stable[OF fE])
  have VR: "sV c \<Longrightarrow> sV (gR c)" for c unfolding sV_def gR_def
    by (cases release)
       (simp_all del: append.simps add: stable_from_preserved[OF fV fR keys_apart(1)])
  have VT: "sV c \<Longrightarrow> sV (gT c)" for c unfolding sV_def gT_def
    by (simp del: append.simps add: stable_from_preserved[OF fV fT keys_apart(2)])
  have VE: "sV c \<Longrightarrow> sV (gE c)" for c unfolding sV_def gE_def
    by (simp del: append.simps add: stable_from_preserved[OF fV fE keys_apart(3)])
  have RT: "sR c \<Longrightarrow> sR (gT c)" for c unfolding sR_def gT_def
    by (cases release)
       (simp_all del: append.simps add: stable_from_preserved[OF fR fT keys_apart(5)])
  have RE: "sR c \<Longrightarrow> sR (gE c)" for c unfolding sR_def gE_def
    by (cases release)
       (simp_all del: append.simps add: stable_from_preserved[OF fR fE keys_apart(6)])
  have TE: "sT c \<Longrightarrow> sT (gE c)" for c unfolding sT_def gE_def
    by (simp del: append.simps add: stable_from_preserved[OF fT fE keys_apart(9)])
  have V: "sV c \<Longrightarrow> gV c = c" for c unfolding sV_def gV_def by (rule stable_from_fixed)
  have R: "sR c \<Longrightarrow> gR c = c" for c unfolding sR_def gR_def
    by (cases release) (simp_all del: append.simps add: stable_from_fixed)
  have T: "sT c \<Longrightarrow> gT c = c" for c unfolding sT_def gT_def
    by (simp del: append.simps add: stable_from_fixed)
  have E: "sE c \<Longrightarrow> gE c = c" for c unfolding sE_def gE_def
    by (simp del: append.simps add: stable_from_fixed)
  let ?c = "gE (gT (gR (gV (U original))))"
  have "cr \<notin> set (U original)" unfolding U_def cr_def by (rule universal_newlines_no_cr)
  then have ncr: "cr \<notin> set ?c" by (intro nE nT nR nV)
  then have Uc: "U ?c = ?c" unfolding U_def cr_def by (rule universal_newlines_id)
  have "sV ?c" by (intro VE VT VR VV)
  moreover have "sR ?c" by (intro RE RT RR)
  moreover have "sT ?c" by (intro TE TT)
  moreover have "sE ?c" by (rule EE)
  ultimately have fx: "gE (gT (gR (gV ?c))) = ?c" by (simp add: V R T E)
  show ?thesis
  proof (cases "?c = U original")
    case True
    then have "update_spec_file l (Some original) version theia_version electron_version
        release = Some (Inr (Some original, False))"
      by (simp add: u)
    then show ?thesis by blast
  next
    case False
    then have 1: "update_spec_file l (Some original) version theia_version electron_version
        release = Some (Inr (Some ?c, True))"
      by (simp add: u)
    have 2: "update_spec_file l (Some ?c) version theia_version electron_version release
        = Some (Inr (Some ?c, False))"
      unfolding u Uc fx by simp
    have 3: "?c \<noteq> original"
    proof
      assume e: "?c = original"
      with ncr have "cr \<notin> set original" by simp
      then have "U original = original" unfolding U_def cr_def by (rule universal_newlines_id)
      with e False show False by simp
    qed
    from 1 2 3 show ?thesis by blast
  qed
qed

lemma update_spec_file_over_limit:
  assumes "CHR 0x5C \<notin> set version" "over_limit l (length (str_nat (nat \<bar>n\<bar>)))"
  shows "update_spec_file l (Some original) version theia_version electron_version (Some n)
    = Some (Inl ValueError)"
  using assms by (simp add: update_spec_file_def re_sub_line_def py_str_def)

text \<open>
  C7, as the code has it: when the version, and the Theia and Electron versions where
  they are given, each have a character that is not whitespace and have no newline, no
  carriage return and no backslash, and the release, where it is given, can be converted
  to text, then for every text of the spec file a run of \<^verbatim>\<open>update_spec_file\<close> returns,
  it returns \<open>True\<close> exactly when it changed the file, and a second run with the same
  arguments on the file the first run left computes the text it reads, writes nothing
  and returns \<open>False\<close> (no changes needed). A release beyond the limit of digits raises
  \<^verbatim>\<open>ValueError\<close>. A missing spec file stays missing.
\<close>

theorem update_spec_file_idempotent:
  "(plain_value version \<and>
    (truthy theia_version \<longrightarrow> plain_value (the theia_version)) \<and>
    (truthy electron_version \<longrightarrow> plain_value (the electron_version)) \<and>
    (\<forall>n. release = Some n \<longrightarrow> \<not> over_limit l (length (str_nat (nat \<bar>n\<bar>)))) \<longrightarrow>
    (\<exists>after changed.
       update_spec_file l (Some original) version theia_version electron_version release
         = Some (Inr (Some after, changed)) \<and>
       (changed \<longleftrightarrow> after \<noteq> original) \<and>
       update_spec_file l (Some after) version theia_version electron_version release
         = Some (Inr (Some after, False)))) \<and>
   (CHR 0x5C \<notin> set version \<and> over_limit l (length (str_nat (nat \<bar>n\<bar>))) \<longrightarrow>
    update_spec_file l (Some original) version theia_version electron_version (Some n)
      = Some (Inl ValueError)) \<and>
   update_spec_file l None version theia_version electron_version release
     = Some (Inr (None, False))"
proof (intro conjI impI)
  assume a: "plain_value version \<and>
    (truthy theia_version \<longrightarrow> plain_value (the theia_version)) \<and>
    (truthy electron_version \<longrightarrow> plain_value (the electron_version)) \<and>
    (\<forall>n. release = Some n \<longrightarrow> \<not> over_limit l (length (str_nat (nat \<bar>n\<bar>))))"
  show "\<exists>after changed.
       update_spec_file l (Some original) version theia_version electron_version release
         = Some (Inr (Some after, changed)) \<and>
       (changed \<longleftrightarrow> after \<noteq> original) \<and>
       update_spec_file l (Some after) version theia_version electron_version release
         = Some (Inr (Some after, False))"
    by (rule update_spec_file_twice) (use a in simp_all)
next
  assume "CHR 0x5C \<notin> set version \<and> over_limit l (length (str_nat (nat \<bar>n\<bar>)))"
  then show "update_spec_file l (Some original) version theia_version electron_version (Some n)
      = Some (Inl ValueError)"
    by (simp add: update_spec_file_over_limit)
next
  show "update_spec_file l None version theia_version electron_version release
     = Some (Inr (None, False))"
    by (simp add: update_spec_file_def)
qed

lemma example_update:
  "update_spec_file 4300
     (Some (''Name: x'' @ [CHR 0x0D, CHR 0x0A] @ ''Version:   0.1'' @ [CHR 0x0A] @
            ''Release: 1%{?dist}'' @ [CHR 0x0A] @ ''%global theia_version 1'' @ [CHR 0x0A]))
     ''1.67.100'' (Some ''1.2'') None (Some 4)
   = Some (Inr (Some (''Name: x'' @ [CHR 0x0A] @ ''Version:        1.67.100'' @ [CHR 0x0A] @
            ''Release:        4%{?dist}'' @ [CHR 0x0A] @ ''%global theia_version 1.2'' @
            [CHR 0x0A]), True))"
  by (simp add: update_spec_file_def re_sub_line_def match_line_def py_isspace_def
      py_str_def over_limit_def str_int_def str_nat.simps)

theorem update_spec_file_idempotent_witness:
  "update_spec_file 4300
     (Some (''Name: x'' @ [CHR 0x0A] @ ''Version:        1.67.100'' @ [CHR 0x0A] @
            ''Release:        4%{?dist}'' @ [CHR 0x0A] @ ''%global theia_version 1.2'' @
            [CHR 0x0A]))
     ''1.67.100'' (Some ''1.2'') None (Some 4)
   = Some (Inr (Some (''Name: x'' @ [CHR 0x0A] @ ''Version:        1.67.100'' @ [CHR 0x0A] @
            ''Release:        4%{?dist}'' @ [CHR 0x0A] @ ''%global theia_version 1.2'' @
            [CHR 0x0A]), False)) \<and>
   update_spec_file 640 (Some ''Version: 1'') ''2'' None None (Some (10 ^ 640))
   = Some (Inl ValueError)"
proof -
  let ?o = "''Name: x'' @ [CHR 0x0D, CHR 0x0A] @ ''Version:   0.1'' @ [CHR 0x0A] @
            ''Release: 1%{?dist}'' @ [CHR 0x0A] @ ''%global theia_version 1'' @ [CHR 0x0A]"
  note t = update_spec_file_idempotent[of "''1.67.100''" "Some ''1.2''" None "Some 4" 4300 ?o 4]
  have "length (str_nat 4) \<le> 1" by (rule str_nat_length_le) simp_all
  then have "\<not> over_limit 4300 (length (str_nat (nat \<bar>4::int\<bar>)))"
    by (simp add: over_limit_def)
  then have h: "plain_value ''1.67.100'' \<and>
    (truthy (Some ''1.2'') \<longrightarrow> plain_value (the (Some ''1.2''))) \<and>
    (truthy None \<longrightarrow> plain_value (the None)) \<and>
    (\<forall>n. Some (4::int) = Some n \<longrightarrow> \<not> over_limit 4300 (length (str_nat (nat \<bar>n\<bar>))))"
    by (simp add: plain_value_def py_isspace_def)
  from t[THEN conjunct1, rule_format, OF h]
  obtain after changed where
    "update_spec_file 4300 (Some ?o) ''1.67.100'' (Some ''1.2'') None (Some 4)
       = Some (Inr (Some after, changed))"
    "update_spec_file 4300 (Some after) ''1.67.100'' (Some ''1.2'') None (Some 4)
       = Some (Inr (Some after, False))"
    by blast
  then have 1: "update_spec_file 4300
     (Some (''Name: x'' @ [CHR 0x0A] @ ''Version:        1.67.100'' @ [CHR 0x0A] @
            ''Release:        4%{?dist}'' @ [CHR 0x0A] @ ''%global theia_version 1.2'' @
            [CHR 0x0A]))
     ''1.67.100'' (Some ''1.2'') None (Some 4)
   = Some (Inr (Some (''Name: x'' @ [CHR 0x0A] @ ''Version:        1.67.100'' @ [CHR 0x0A] @
            ''Release:        4%{?dist}'' @ [CHR 0x0A] @ ''%global theia_version 1.2'' @
            [CHR 0x0A]), False))"
    unfolding example_update by simp
  have "(10 ^ 640 :: int) = int (10 ^ 640)" by (simp only: of_nat_power of_nat_numeral)
  then have p: "nat \<bar>10 ^ 640 :: int\<bar> = 10 ^ 640" by (simp only: abs_of_nat nat_int)
  have o: "640 < d \<Longrightarrow> over_limit 640 d" for d by (simp add: over_limit_def)
  have "CHR 0x5C \<notin> set ''2''" by simp
  moreover have "over_limit 640 (length (str_nat (nat \<bar>10 ^ 640 :: int\<bar>)))"
    unfolding p by (rule o) (rule str_nat_length_ge[OF order_refl])
  ultimately have h2: "CHR 0x5C \<notin> set ''2'' \<and>
      over_limit 640 (length (str_nat (nat \<bar>10 ^ 640 :: int\<bar>)))"
    by (rule conjI)
  note 2 = update_spec_file_idempotent[of "''2''" None None None 640 "''Version: 1''" "10 ^ 640",
      THEN conjunct2, THEN conjunct1, rule_format, OF h2]
  from 1 2 show ?thesis by (rule conjI)
qed

text \<open>
  The claim as stated fails for a version that is only whitespace: the first run leaves
  a \<^verbatim>\<open>Version:\<close> line that ends in whitespace, and in the second run the whitespace
  of the pattern runs over the newline and the match takes the next line with it. It
  fails as well for a version that ends in a carriage return: the first run writes it,
  the second run reads a newline in its place and writes the file again.
\<close>

theorem update_spec_file_blank_version_counterexample:
  "update_spec_file 4300 (Some (''Version: 1'' @ [CHR 0x0A] @ ''Name: x'')) '' '' None None None
     = Some (Inr (Some (''Version:         '' @ [CHR 0x0A] @ ''Name: x''), True)) \<and>
   update_spec_file 4300 (Some (''Version:         '' @ [CHR 0x0A] @ ''Name: x'')) '' ''
       None None None
     = Some (Inr (Some ''Version:         '', True)) \<and>
   update_spec_file 4300 (Some ''Version: 1'') (''2'' @ [CHR 0x0D]) None None None
     = Some (Inr (Some (''Version:        2'' @ [CHR 0x0D]), True)) \<and>
   update_spec_file 4300 (Some (''Version:        2'' @ [CHR 0x0D])) (''2'' @ [CHR 0x0D])
       None None None
     = Some (Inr (Some (''Version:        2'' @ [CHR 0x0D, CHR 0x0A]), True))"
  by (simp add: update_spec_file_def re_sub_line_def match_line_def py_isspace_def)

end
